theory Spec2Isabelle
  imports Complex_Main "HOL-Library.Signed_Division"
begin

section \<open>go-fish: a shallow embedding of \<^verbatim>\<open>fish/fish.go\<close>\<close>

text \<open>
  The interpreter keeps a grid of bytes (the code box), a pointer with a direction, and a
  list of stacks of \<^verbatim>\<open>float64\<close> cells. Every method of the source becomes a
  function on explicit state. A Go panic becomes a value \<open>Inl fault\<close>; inside
  \<^verbatim>\<open>Swim\<close> the deferred \<^verbatim>\<open>recover\<close> prints diagnostics and calls
  \<^verbatim>\<open>os.Exit(1)\<close>, so a fault of \<open>Swim\<close> is the end of the process.

  The integer type \<^verbatim>\<open>int\<close> is taken to be 64 bits wide. The index of the current
  stack is not wrapped, since the number of stacks stays far below \<open>2^63\<close>.

  Slices are modelled by the sequences of their elements, without their backing arrays.
  This is what the program computes as long as no cell that two stacks can both see is
  written in place. The stacks of a code box share visible cells in one situation only: after
  \<^verbatim>\<open>CodeBox.NewStack\<close> has taken its second branch outside compatibility mode, the new
  current stack is a window on cells that its parent keeps, and a write to these cells through
  the new stack would change the parent as well. No statement below depends on such a write:
  where a statement opens a stack, it closes it in the next cycle.
\<close>

subsection \<open>Faults\<close>

datatype fault =
    EmptyStack  \<comment> \<open>\<^verbatim>\<open>panic("Stack is empty!")\<close>\<close>
  | InvalidInstruction char  \<comment> \<open>\<^verbatim>\<open>panic(r)\<close> in the default case of \<^verbatim>\<open>Exe\<close>\<close>
  | IndexOutOfRange  \<comment> \<open>run-time panic of an index expression\<close>
  | SliceBoundsOutOfRange  \<comment> \<open>run-time panic of a slice expression\<close>
  | MakeSliceOutOfRange  \<comment> \<open>run-time panic of \<^verbatim>\<open>make\<close> with length above capacity\<close>
  | DivideByZero  \<comment> \<open>run-time panic of integer \<^verbatim>\<open>%\<close> by zero\<close>
  | EmptyProgram  \<comment> \<open>the panic of \<^verbatim>\<open>NewCodeBox\<close>\<close>

type_synonym 'a result = "fault + 'a"

definition andThen :: "'a result \<Rightarrow> ('a \<Rightarrow> 'b result) \<Rightarrow> 'b result" where
  "andThen m f = (case m of Inl e \<Rightarrow> Inl e | Inr x \<Rightarrow> f x)"

definition index :: "'a list \<Rightarrow> int \<Rightarrow> 'a result" where
  "index xs i = (if 0 \<le> i \<and> i < int (length xs) then Inr (xs ! nat i) else Inl IndexOutOfRange)"

text \<open>\<^verbatim>\<open>xs[k:]\<close> and \<^verbatim>\<open>xs[:k]\<close> for \<open>k\<close> up to the length.\<close>

definition slice_from :: "'a list \<Rightarrow> int \<Rightarrow> 'a list result" where
  "slice_from xs k =
     (if 0 \<le> k \<and> k \<le> int (length xs) then Inr (drop (nat k) xs) else Inl SliceBoundsOutOfRange)"

definition slice_to :: "'a list \<Rightarrow> int \<Rightarrow> 'a list result" where
  "slice_to xs k =
     (if 0 \<le> k \<and> k \<le> int (length xs) then Inr (take (nat k) xs) else Inl SliceBoundsOutOfRange)"

subsection \<open>64-bit integers\<close>

definition wrap64 :: "int \<Rightarrow> int" where
  "wrap64 i = (i + 2 ^ 63) mod 2 ^ 64 - 2 ^ 63"

definition in_int64 :: "int \<Rightarrow> bool" where
  "in_int64 i \<longleftrightarrow> - (2 ^ 63) \<le> i \<and> i < 2 ^ 63"

subsection \<open>The cell type \<^verbatim>\<open>float64\<close>\<close>

text \<open>
  An IEEE 754 binary64 value is a finite rational (\<open>Finite 0\<close> is \<open>+0\<close>), the negative
  zero, an infinity or a NaN (payloads are not distinguished). Arithmetic computes the exact
  rational result and rounds it to the nearest representable value, ties to even.
\<close>

datatype float64 = Finite rat | NegZero | PosInf | NegInf | NaN

definition pow2 :: "int \<Rightarrow> rat" where
  "pow2 e = (if 0 \<le> e then 2 ^ nat e else 1 / 2 ^ nat (- e))"

fun bitlen :: "nat \<Rightarrow> nat" where
  "bitlen n = (if n = 0 then 0 else Suc (bitlen (n div 2)))"

declare bitlen.simps [simp del]

text \<open>\<open>ilog2 a\<close> is the integer \<open>e\<close> with \<open>2^e \<le> a < 2^(e+1)\<close>, for \<open>a > 0\<close>.\<close>

definition ilog2 :: "rat \<Rightarrow> int" where
  "ilog2 a =
     (let (n, d) = quotient_of a;
          e0 = int (bitlen (nat n)) - int (bitlen (nat d))
      in if pow2 e0 \<le> a then e0 else e0 - 1)"

definition round_half_even :: "rat \<Rightarrow> int" where
  "round_half_even x =
     (let f = \<lfloor>x\<rfloor>; d = x - of_int f
      in if d < 1 / 2 then f else if 1 / 2 < d then f + 1 else if even f then f else f + 1)"

definition round64 :: "rat \<Rightarrow> float64" where
  "round64 q =
     (if q = 0 then Finite 0
      else
        let a = \<bar>q\<bar>;
            e = max (ilog2 a) (- 1022) - 52;
            m = round_half_even (a / pow2 e);
            v = of_int m * pow2 e
        in if pow2 1024 \<le> v then (if q < 0 then NegInf else PosInf)
           else if m = 0 then (if q < 0 then NegZero else Finite 0)
           else Finite (if q < 0 then - v else v))"

fun fneg :: "float64 \<Rightarrow> float64" where
  "fneg (Finite q) = (if q = 0 then NegZero else Finite (- q))"
| "fneg NegZero = Finite 0"
| "fneg PosInf = NegInf"
| "fneg NegInf = PosInf"
| "fneg NaN = NaN"

fun fsign :: "float64 \<Rightarrow> bool" where
  "fsign (Finite q) = (q < 0)"
| "fsign NegZero = True"
| "fsign NegInf = True"
| "fsign PosInf = False"
| "fsign NaN = False"

definition is_zero :: "float64 \<Rightarrow> bool" where
  "is_zero x \<longleftrightarrow> x = Finite 0 \<or> x = NegZero"

definition is_inf :: "float64 \<Rightarrow> bool" where
  "is_inf x \<longleftrightarrow> x = PosInf \<or> x = NegInf"

text \<open>The rational value of a finite cell.\<close>

fun fin :: "float64 \<Rightarrow> rat" where
  "fin (Finite q) = q"
| "fin _ = 0"

fun is_finite :: "float64 \<Rightarrow> bool" where
  "is_finite (Finite q) = True"
| "is_finite NegZero = True"
| "is_finite _ = False"

definition signed_inf :: "bool \<Rightarrow> float64" where
  "signed_inf neg = (if neg then NegInf else PosInf)"

definition signed_zero :: "bool \<Rightarrow> float64" where
  "signed_zero neg = (if neg then NegZero else Finite 0)"

definition fadd :: "float64 \<Rightarrow> float64 \<Rightarrow> float64" where
  "fadd x y =
     (if x = NaN \<or> y = NaN then NaN
      else if is_inf x \<and> is_inf y then (if x = y then x else NaN)
      else if is_inf x then x
      else if is_inf y then y
      else if x = NegZero \<and> y = NegZero then NegZero
      else round64 (fin x + fin y))"

definition fsub :: "float64 \<Rightarrow> float64 \<Rightarrow> float64" where
  "fsub x y = fadd x (fneg y)"

definition fmul :: "float64 \<Rightarrow> float64 \<Rightarrow> float64" where
  "fmul x y =
     (if x = NaN \<or> y = NaN then NaN
      else if (is_inf x \<and> is_zero y) \<or> (is_zero x \<and> is_inf y) then NaN
      else if is_inf x \<or> is_inf y then signed_inf (fsign x \<noteq> fsign y)
      else if is_zero x \<or> is_zero y then signed_zero (fsign x \<noteq> fsign y)
      else round64 (fin x * fin y))"

definition fdiv :: "float64 \<Rightarrow> float64 \<Rightarrow> float64" where
  "fdiv x y =
     (if x = NaN \<or> y = NaN then NaN
      else if (is_inf x \<and> is_inf y) \<or> (is_zero x \<and> is_zero y) then NaN
      else if is_inf x \<or> is_zero y then signed_inf (fsign x \<noteq> fsign y)
      else if is_inf y \<or> is_zero x then signed_zero (fsign x \<noteq> fsign y)
      else round64 (fin x / fin y))"

text \<open>Go's \<^verbatim>\<open>==\<close>, \<^verbatim>\<open><\<close> and \<^verbatim>\<open>>\<close> on \<^verbatim>\<open>float64\<close>.\<close>

definition feq :: "float64 \<Rightarrow> float64 \<Rightarrow> bool" where
  "feq x y \<longleftrightarrow> x \<noteq> NaN \<and> y \<noteq> NaN \<and> (x = y \<or> (is_zero x \<and> is_zero y))"

definition flt :: "float64 \<Rightarrow> float64 \<Rightarrow> bool" where
  "flt x y \<longleftrightarrow>
     x \<noteq> NaN \<and> y \<noteq> NaN \<and> x \<noteq> PosInf \<and> y \<noteq> NegInf \<and>
     (if x = NegInf then True else if y = PosInf then True else fin x < fin y)"

definition fgt :: "float64 \<Rightarrow> float64 \<Rightarrow> bool" where
  "fgt x y \<longleftrightarrow> flt y x"

text \<open>Conversions from integers: \<^verbatim>\<open>float64(i)\<close> rounds to nearest.\<close>

definition float64_of_int :: "int \<Rightarrow> float64" where
  "float64_of_int i = round64 (of_int i)"

definition float64_of_byte :: "char \<Rightarrow> float64" where
  "float64_of_byte c = float64_of_int (of_char c)"

text \<open>Truncation towards zero.\<close>

definition trunc :: "rat \<Rightarrow> int" where
  "trunc q = (if q < 0 then - \<lfloor>- q\<rfloor> else \<lfloor>q\<rfloor>)"

subsection \<open>What the program does not determine\<close>

text \<open>
  One value of \<open>world\<close> is given to each cycle. It holds the result
  of \<^verbatim>\<open>rand.Int31n(4)\<close>, the byte that the non-blocking receive on the
  input channel yields (if one is pending), and the results of converting a
  \<^verbatim>\<open>float64\<close> that the integer type cannot represent, which Go leaves to the
  implementation.
\<close>

record world =
  rand4 :: nat
  recv :: "char option"
  oor_int :: "float64 \<Rightarrow> int"
  oor_byte :: "float64 \<Rightarrow> char"

text \<open>\<^verbatim>\<open>int(f)\<close> and \<^verbatim>\<open>int64(f)\<close>: the fraction is discarded.\<close>

definition to_int :: "world \<Rightarrow> float64 \<Rightarrow> int" where
  "to_int w x =
     (if is_finite x \<and> in_int64 (trunc (fin x)) then trunc (fin x)
      else wrap64 (oor_int w x))"

text \<open>\<^verbatim>\<open>byte(f)\<close>.\<close>

definition to_byte :: "world \<Rightarrow> float64 \<Rightarrow> char" where
  "to_byte w x =
     (if is_finite x \<and> 0 \<le> trunc (fin x) \<and> trunc (fin x) < 256
      then char_of (trunc (fin x))
      else oor_byte w x)"

subsection \<open>Direction\<close>

datatype Direction = Right | Down | Left | Up

text \<open>\<^verbatim>\<open>Direction(n)\<close> for the constants declared with \<^verbatim>\<open>iota\<close>.\<close>

definition Direction_of :: "nat \<Rightarrow> Direction" where
  "Direction_of n = (if n = 0 then Right else if n = 1 then Down else if n = 2 then Left else Up)"

subsection \<open>Stack\<close>

record Stack =
  S :: "float64 list"
  register :: float64
  filledRegister :: bool

definition NewStack :: "float64 list \<Rightarrow> Stack" where
  "NewStack s = \<lparr>S = s, register = Finite 0, filledRegister = False\<rparr>"

definition Push :: "float64 \<Rightarrow> Stack \<Rightarrow> Stack" where
  "Push r s = s\<lparr>S := S s @ [r]\<rparr>"

definition Pop :: "Stack \<Rightarrow> (float64 \<times> Stack) result" where
  "Pop s =
     (if length (S s) > 0 then Inr (S s ! (length (S s) - 1), s\<lparr>S := take (length (S s) - 1) (S s)\<rparr>)
      else Inl EmptyStack)"

definition Register :: "Stack \<Rightarrow> Stack result" where
  "Register s =
     (if filledRegister s then Inr ((Push (register s) s)\<lparr>filledRegister := False\<rparr>)
      else andThen (Pop s) (\<lambda>(r, s'). Inr (s'\<lparr>register := r, filledRegister := True\<rparr>)))"

definition Extend :: "Stack \<Rightarrow> Stack result" where
  "Extend s = andThen (index (S s) (int (length (S s)) - 1)) (\<lambda>r. Inr (Push r s))"

text \<open>
  The loop of \<^verbatim>\<open>Reverse\<close>: \<open>i\<close> counts up from 0 and \<open>ii\<close> down from the last
  index, until \<open>ii\<close> is negative.
\<close>

function Reverse_loop :: "float64 list \<Rightarrow> nat \<Rightarrow> int \<Rightarrow> float64 list \<Rightarrow> float64 list" where
  "Reverse_loop s i ii newS =
     (if ii \<ge> 0 then Reverse_loop s (i + 1) (ii - 1) (newS[i := s ! nat ii]) else newS)"
  by pat_completeness auto
termination
  by (relation "measure (\<lambda>(s, i, ii, newS). nat (ii + 1))") auto

declare Reverse_loop.simps [simp del]

definition Reverse :: "Stack \<Rightarrow> Stack" where
  "Reverse s =
     s\<lparr>S := Reverse_loop (S s) 0 (int (length (S s)) - 1) (replicate (length (S s)) (Finite 0))\<rparr>"

definition SwapTwo :: "Stack \<Rightarrow> Stack result" where
  "SwapTwo s =
     (let n = int (length (S s)) in
      andThen (index (S s) (n - 1)) (\<lambda>x.
      andThen (index (S s) (n - 2)) (\<lambda>y.
        Inr (s\<lparr>S := (S s)[nat (n - 1) := y, nat (n - 2) := x]\<rparr>))))"

definition SwapThree :: "Stack \<Rightarrow> Stack result" where
  "SwapThree s =
     (let n = int (length (S s)) in
      andThen (index (S s) (n - 1)) (\<lambda>x.
      andThen (index (S s) (n - 2)) (\<lambda>y.
      andThen (index (S s) (n - 3)) (\<lambda>z.
        Inr (s\<lparr>S := (S s)[nat (n - 1) := y, nat (n - 2) := z, nat (n - 3) := x]\<rparr>)))))"

definition ShiftRight :: "Stack \<Rightarrow> Stack result" where
  "ShiftRight s =
     (if 1 > length (S s) then Inl MakeSliceOutOfRange
      else andThen (Pop s) (\<lambda>(r, s'). Inr (s'\<lparr>S := [r] @ S s'\<rparr>)))"

definition ShiftLeft :: "Stack \<Rightarrow> Stack result" where
  "ShiftLeft s =
     andThen (index (S s) 0) (\<lambda>r.
     andThen (slice_from (S s) 1) (\<lambda>rest. Inr (Push r (s\<lparr>S := rest\<rparr>))))"

subsection \<open>CodeBox\<close>

text \<open>
  The fields of the struct, and \<open>stdout\<close> for what \<^verbatim>\<open>o\<close> and \<^verbatim>\<open>n\<close> have
  printed so far. The string mode is a byte; the zero byte means that no string is open.
\<close>

datatype printed = PrintByte char | PrintNumber float64

record CodeBox =
  fX :: int
  fY :: int
  fDir :: Direction
  width :: int
  height :: int
  box :: "char list list"
  stacks :: "Stack list"
  p :: int
  stringMode :: char
  compMode :: bool
  stdout :: "printed list"

definition longestLineLength :: "string list \<Rightarrow> int" where
  "longestLineLength lines = fold (\<lambda>s l. if int (length s) > l then int (length s) else l) lines 0"

text \<open>\<^verbatim>\<open>strings.Split(script, "\n")\<close>.\<close>

fun Split :: "string \<Rightarrow> string list" where
  "Split [] = [[]]"
| "Split (c # cs) =
     (if c = CHR 0x0A then [] # Split cs else (c # hd (Split cs)) # tl (Split cs))"

text \<open>One row of the box: the bytes of the line, then spaces up to the width.\<close>

definition box_row :: "int \<Rightarrow> string \<Rightarrow> char list" where
  "box_row w s = map (\<lambda>ii. if ii < length s then s ! ii else CHR '' '') [0..<nat w]"

definition NewCodeBox :: "string \<Rightarrow> float64 list \<Rightarrow> bool \<Rightarrow> CodeBox result" where
  "NewCodeBox script stack compatibilityMode =
     (let script = filter (\<lambda>c. c \<noteq> CHR 0x0D) script in
      if length script = 0 \<or> script = [CHR 0x0A] then Inl EmptyProgram
      else
        let lines = Split script;
            w = longestLineLength lines
        in Inr \<lparr>fX = 0, fY = 0, fDir = Right, width = w, height = int (length lines),
                 box = map (box_row w) lines, stacks = [NewStack stack], p = 0,
                 stringMode = CHR 0x00, compMode = compatibilityMode, stdout = []\<rparr>)"

text \<open>The methods that forward to the current stack, \<^verbatim>\<open>cB.stacks[cB.p]\<close>.\<close>

definition on_current :: "(Stack \<Rightarrow> Stack result) \<Rightarrow> CodeBox \<Rightarrow> CodeBox result" where
  "on_current f cB =
     andThen (index (stacks cB) (p cB)) (\<lambda>s.
     andThen (f s) (\<lambda>s'. Inr (cB\<lparr>stacks := (stacks cB)[nat (p cB) := s']\<rparr>)))"

definition CodeBox_Stack :: "CodeBox \<Rightarrow> float64 list result" where
  "CodeBox_Stack cB = andThen (index (stacks cB) (p cB)) (\<lambda>s. Inr (S s))"

definition CodeBox_Push :: "float64 \<Rightarrow> CodeBox \<Rightarrow> CodeBox result" where
  "CodeBox_Push r cB = on_current (\<lambda>s. Inr (Push r s)) cB"

definition CodeBox_Pop :: "CodeBox \<Rightarrow> (float64 \<times> CodeBox) result" where
  "CodeBox_Pop cB =
     andThen (index (stacks cB) (p cB)) (\<lambda>s.
     andThen (Pop s) (\<lambda>(r, s'). Inr (r, cB\<lparr>stacks := (stacks cB)[nat (p cB) := s']\<rparr>)))"

definition StackLength :: "CodeBox \<Rightarrow> float64 result" where
  "StackLength cB = andThen (index (stacks cB) (p cB)) (\<lambda>s. Inr (float64_of_int (int (length (S s)))))"

definition CodeBox_Register :: "CodeBox \<Rightarrow> CodeBox result" where
  "CodeBox_Register cB = on_current Register cB"

definition ReverseStack :: "CodeBox \<Rightarrow> CodeBox result" where
  "ReverseStack cB = on_current (\<lambda>s. Inr (Reverse s)) cB"

definition ExtendStack :: "CodeBox \<Rightarrow> CodeBox result" where
  "ExtendStack cB = on_current Extend cB"

definition StackSwapTwo :: "CodeBox \<Rightarrow> CodeBox result" where
  "StackSwapTwo cB = on_current SwapTwo cB"

definition StackSwapThree :: "CodeBox \<Rightarrow> CodeBox result" where
  "StackSwapThree cB = on_current SwapThree cB"

definition StackShiftRight :: "CodeBox \<Rightarrow> CodeBox result" where
  "StackShiftRight cB = on_current ShiftRight cB"

definition StackShiftLeft :: "CodeBox \<Rightarrow> CodeBox result" where
  "StackShiftLeft cB = on_current ShiftLeft cB"

text \<open>\<^verbatim>\<open>CloseStack\<close> implements \<^verbatim>\<open>]\<close>.\<close>

definition CloseStack :: "CodeBox \<Rightarrow> CodeBox result" where
  "CloseStack cB =
     (let cB = cB\<lparr>p := p cB - 1\<rparr> in
      andThen (if compMode cB
               then andThen (index (stacks cB) (p cB + 1)) (\<lambda>c.
                      Inr (cB\<lparr>stacks := (stacks cB)[nat (p cB + 1) := Reverse c]\<rparr>))
               else Inr cB) (\<lambda>cB.
      andThen (index (stacks cB) (p cB)) (\<lambda>parent.
      andThen (index (stacks cB) (p cB + 1)) (\<lambda>child.
        Inr (cB\<lparr>stacks := (stacks cB)[nat (p cB) := parent\<lparr>S := S parent @ S child\<rparr>]\<rparr>)))))"

text \<open>
  \<^verbatim>\<open>CodeBox.NewStack\<close> implements \<^verbatim>\<open>[\<close>. Its second branch fills a slot that an earlier
  \<^verbatim>\<open>[\<close> has left, and does not cut the moved cells off the parent. In the source the
  slot then holds a slice of the parent's array: outside compatibility mode (where
  \<^verbatim>\<open>Reverse\<close> does not replace it by a new array) a later write through the new stack
  to one of these cells, by \<^verbatim>\<open>$\<close>, \<^verbatim>\<open>@\<close> or a push after a pop, is a write to the
  suspended parent too. The model copies the cells, so it follows the source for the current
  stack, and for the suspended parent only as long as no such write happens.
\<close>

definition CodeBox_NewStack :: "int \<Rightarrow> CodeBox \<Rightarrow> CodeBox result" where
  "CodeBox_NewStack n cB =
     (let cB = cB\<lparr>p := p cB + 1\<rparr> in
      andThen
        (if p cB = int (length (stacks cB)) then
           andThen (index (stacks cB) (p cB - 1)) (\<lambda>parent.
           andThen (slice_from (S parent) (int (length (S parent)) - n)) (\<lambda>top.
           andThen (slice_to (S parent) (int (length (S parent)) - n)) (\<lambda>rest.
             Inr (cB\<lparr>stacks := (stacks cB @ [NewStack top])[nat (p cB - 1) := parent\<lparr>S := rest\<rparr>]\<rparr>))))
         else
           andThen (index (stacks cB) (p cB)) (\<lambda>child.
           andThen (index (stacks cB) (p cB - 1)) (\<lambda>parent.
           andThen (slice_from (S parent) (int (length (S parent)) - n)) (\<lambda>top.
             Inr (cB\<lparr>stacks := (stacks cB)[nat (p cB) := child\<lparr>S := top, filledRegister := False\<rparr>]\<rparr>)))))
        (\<lambda>cB.
           if compMode cB
           then andThen (index (stacks cB) (p cB)) (\<lambda>c.
                  Inr (cB\<lparr>stacks := (stacks cB)[nat (p cB) := Reverse c]\<rparr>))
           else Inr cB))"

text \<open>\<^verbatim>\<open>Move\<close> changes the coordinates by the direction; the increments wrap at 64 bits.\<close>

definition Move :: "CodeBox \<Rightarrow> CodeBox" where
  "Move cB =
     (case fDir cB of
        Right \<Rightarrow>
          (let cB = cB\<lparr>fX := wrap64 (fX cB + 1)\<rparr> in
           if fX cB \<ge> width cB then cB\<lparr>fX := 0\<rparr> else cB)
      | Down \<Rightarrow>
          (let cB = cB\<lparr>fY := wrap64 (fY cB + 1)\<rparr> in
           if fY cB \<ge> height cB then cB\<lparr>fY := 0\<rparr> else cB)
      | Left \<Rightarrow>
          (let cB = cB\<lparr>fX := wrap64 (fX cB - 1)\<rparr> in
           if fX cB < 0 then cB\<lparr>fX := width cB - 1\<rparr> else cB)
      | Up \<Rightarrow>
          (let cB = cB\<lparr>fY := wrap64 (fY cB - 1)\<rparr> in
           if fY cB < 0 then cB\<lparr>fY := height cB - 1\<rparr> else cB))"

text \<open>Byte arithmetic of the literal cases: \<^verbatim>\<open>r - '0'\<close> and \<^verbatim>\<open>r - 'a' + 10\<close>.\<close>

definition digit_value :: "char \<Rightarrow> char" where
  "digit_value r = char_of (of_char r - of_char (CHR ''0'') :: int)"

definition hex_value :: "char \<Rightarrow> char" where
  "hex_value r = char_of (of_char r - of_char (CHR ''a'') + 10 :: int)"

definition continue :: "CodeBox result \<Rightarrow> (bool \<times> CodeBox) result" where
  "continue m = andThen m (\<lambda>cB. Inr (False, cB))"

text \<open>
  \<^verbatim>\<open>Exe\<close> executes the instruction \<open>r\<close>. The result is \<open>Inr (True, _)\<close> when it
  executes \<^verbatim>\<open>;\<close>. Where one statement of the source pops several times, the pops
  happen in the order of the calls, from left to right, and before the index checks of the
  same statement.
\<close>

definition Exe :: "world \<Rightarrow> CodeBox \<Rightarrow> char \<Rightarrow> (bool \<times> CodeBox) result" where
  "Exe w cB r =
    (if r = CHR '' '' then Inr (False, cB)
     else if r = CHR '';'' then Inr (True, cB)
     else if r = CHR ''>'' then Inr (False, cB\<lparr>fDir := Right\<rparr>)
     else if r = CHR ''v'' then Inr (False, cB\<lparr>fDir := Down\<rparr>)
     else if r = CHR ''<'' then Inr (False, cB\<lparr>fDir := Left\<rparr>)
     else if r = CHR ''^'' then Inr (False, cB\<lparr>fDir := Up\<rparr>)
     else if r = CHR ''|'' then
       Inr (False, if fDir cB = Right then cB\<lparr>fDir := Left\<rparr>
                   else if fDir cB = Left then cB\<lparr>fDir := Right\<rparr> else cB)
     else if r = CHR ''_'' then
       Inr (False, if fDir cB = Down then cB\<lparr>fDir := Up\<rparr>
                   else if fDir cB = Up then cB\<lparr>fDir := Down\<rparr> else cB)
     else if r = CHR ''#'' then
       Inr (False, cB\<lparr>fDir := (case fDir cB of Right \<Rightarrow> Left | Down \<Rightarrow> Up | Left \<Rightarrow> Right | Up \<Rightarrow> Down)\<rparr>)
     else if r = CHR ''/'' then
       Inr (False, cB\<lparr>fDir := (case fDir cB of Right \<Rightarrow> Up | Down \<Rightarrow> Left | Left \<Rightarrow> Down | Up \<Rightarrow> Right)\<rparr>)
     else if r = CHR 0x5C then
       Inr (False, cB\<lparr>fDir := (case fDir cB of Right \<Rightarrow> Down | Down \<Rightarrow> Right | Left \<Rightarrow> Up | Up \<Rightarrow> Left)\<rparr>)
     else if r = CHR ''x'' then Inr (False, cB\<lparr>fDir := Direction_of (rand4 w mod 4)\<rparr>)
     else if r = CHR 0x22 \<or> r = CHR 0x27 then
       Inr (False, if stringMode cB = CHR 0x00 then cB\<lparr>stringMode := r\<rparr>
                   else if r = stringMode cB then cB\<lparr>stringMode := CHR 0x00\<rparr> else cB)
     else if r \<in> set ''0123456789'' then
       continue (CodeBox_Push (float64_of_byte (digit_value r)) cB)
     else if r \<in> set ''abcdef'' then
       continue (CodeBox_Push (float64_of_byte (hex_value r)) cB)
     else if r = CHR ''&'' then continue (CodeBox_Register cB)
     else if r = CHR ''o'' then
       andThen (CodeBox_Pop cB) (\<lambda>(x, cB).
         Inr (False, cB\<lparr>stdout := stdout cB @ [PrintByte (to_byte w x)]\<rparr>))
     else if r = CHR ''n'' then
       andThen (CodeBox_Pop cB) (\<lambda>(x, cB).
         Inr (False, cB\<lparr>stdout := stdout cB @ [PrintNumber x]\<rparr>))
     else if r = CHR ''r'' then continue (ReverseStack cB)
     else if r = CHR ''+'' then
       andThen (CodeBox_Pop cB) (\<lambda>(x, cB).
       andThen (CodeBox_Pop cB) (\<lambda>(y, cB).
         continue (CodeBox_Push (fadd x y) cB)))
     else if r = CHR ''-'' then
       andThen (CodeBox_Pop cB) (\<lambda>(x, cB).
       andThen (CodeBox_Pop cB) (\<lambda>(y, cB).
         continue (CodeBox_Push (fsub y x) cB)))
     else if r = CHR ''*'' then
       andThen (CodeBox_Pop cB) (\<lambda>(x, cB).
       andThen (CodeBox_Pop cB) (\<lambda>(y, cB).
         continue (CodeBox_Push (fmul x y) cB)))
     else if r = CHR '','' then
       andThen (CodeBox_Pop cB) (\<lambda>(x, cB).
       andThen (CodeBox_Pop cB) (\<lambda>(y, cB).
         continue (CodeBox_Push (fdiv y x) cB)))
     else if r = CHR ''%'' then
       andThen (CodeBox_Pop cB) (\<lambda>(x, cB).
       andThen (CodeBox_Pop cB) (\<lambda>(y, cB).
         if to_int w x = 0 then Inl DivideByZero
         else continue (CodeBox_Push (float64_of_int (to_int w y smod to_int w x)) cB)))
     else if r = CHR ''='' then
       andThen (CodeBox_Pop cB) (\<lambda>(x, cB).
       andThen (CodeBox_Pop cB) (\<lambda>(y, cB).
         continue (CodeBox_Push (if feq x y then Finite 1 else Finite 0) cB)))
     else if r = CHR '')'' then
       andThen (CodeBox_Pop cB) (\<lambda>(x, cB).
       andThen (CodeBox_Pop cB) (\<lambda>(y, cB).
         continue (CodeBox_Push (if fgt y x then Finite 1 else Finite 0) cB)))
     else if r = CHR ''('' then
       andThen (CodeBox_Pop cB) (\<lambda>(x, cB).
       andThen (CodeBox_Pop cB) (\<lambda>(y, cB).
         continue (CodeBox_Push (if flt y x then Finite 1 else Finite 0) cB)))
     else if r = CHR ''!'' then Inr (False, Move cB)
     else if r = CHR ''?'' then
       andThen (CodeBox_Pop cB) (\<lambda>(x, cB).
         Inr (False, if feq x (Finite 0) then Move cB else cB))
     else if r = CHR ''.'' then
       andThen (CodeBox_Pop cB) (\<lambda>(y, cB).
       andThen (CodeBox_Pop (cB\<lparr>fY := to_int w y\<rparr>)) (\<lambda>(x, cB).
         Inr (False, cB\<lparr>fX := to_int w x\<rparr>)))
     else if r = CHR '':'' then continue (ExtendStack cB)
     else if r = CHR ''~'' then andThen (CodeBox_Pop cB) (\<lambda>(x, cB). Inr (False, cB))
     else if r = CHR ''$'' then continue (StackSwapTwo cB)
     else if r = CHR ''@'' then continue (StackSwapThree cB)
     else if r = CHR ''}'' then continue (StackShiftRight cB)
     else if r = CHR ''{'' then continue (StackShiftLeft cB)
     else if r = CHR '']'' then continue (CloseStack cB)
     else if r = CHR ''['' then
       andThen (CodeBox_Pop cB) (\<lambda>(n, cB). continue (CodeBox_NewStack (to_int w n) cB))
     else if r = CHR ''l'' then
       andThen (StackLength cB) (\<lambda>l. continue (CodeBox_Push l cB))
     else if r = CHR ''g'' then
       andThen (CodeBox_Pop cB) (\<lambda>(y, cB).
       andThen (CodeBox_Pop cB) (\<lambda>(x, cB).
       andThen (index (box cB) (to_int w y)) (\<lambda>row.
       andThen (index row (to_int w x)) (\<lambda>c.
         continue (CodeBox_Push (float64_of_byte c) cB)))))
     else if r = CHR ''p'' then
       andThen (CodeBox_Pop cB) (\<lambda>(y, cB).
       andThen (CodeBox_Pop cB) (\<lambda>(x, cB).
       andThen (CodeBox_Pop cB) (\<lambda>(v, cB).
       andThen (index (box cB) (to_int w y)) (\<lambda>row.
       andThen (index row (to_int w x)) (\<lambda>c.
         Inr (False, cB\<lparr>box := (box cB)[nat (to_int w y) := row[nat (to_int w x) := to_byte w v]]\<rparr>))))))
     else if r = CHR ''i'' then
       continue (CodeBox_Push (case recv w of Some b \<Rightarrow> float64_of_byte b | None \<Rightarrow> Finite (- 1)) cB)
     else Inl (InvalidInstruction r))"

text \<open>The byte under the pointer, \<^verbatim>\<open>cB.box[cB.fY][cB.fX]\<close>.\<close>

definition instruction :: "CodeBox \<Rightarrow> char result" where
  "instruction cB = andThen (index (box cB) (fY cB)) (\<lambda>row. index row (fX cB))"

text \<open>
  \<^verbatim>\<open>Swim\<close> executes one instruction, then moves. The result is \<open>Inr (True, _)\<close> when
  it meets \<^verbatim>\<open>;\<close>, and \<open>Inl\<close> when a panic reaches the deferred function, which ends
  the process.
\<close>

definition Swim :: "world \<Rightarrow> CodeBox \<Rightarrow> (bool \<times> CodeBox) result" where
  "Swim w cB =
     andThen (instruction cB) (\<lambda>r.
     andThen (if stringMode cB \<noteq> CHR 0x00 \<and> r \<noteq> stringMode cB
              then continue (CodeBox_Push (float64_of_byte r) cB)
              else Exe w cB r) (\<lambda>(halt, cB).
       if halt then Inr (True, cB) else Inr (False, Move cB)))"

text \<open>
  \<open>swims ws cB\<close> is the effect of successive calls of \<open>Swim\<close>, one for each world of
  \<open>ws\<close>, as long as the calls return false. A fault ends the process, so nothing is
  executed after it. \<open>run\<close> loads a script first.
\<close>

fun swims :: "world list \<Rightarrow> CodeBox \<Rightarrow> (bool \<times> CodeBox) result" where
  "swims [] cB = Inr (False, cB)"
| "swims (w # ws) cB =
     (case Swim w cB of
        Inl e \<Rightarrow> Inl e
      | Inr (halt, cB') \<Rightarrow> if halt then Inr (True, cB') else swims ws cB')"

definition run :: "string \<Rightarrow> float64 list \<Rightarrow> bool \<Rightarrow> world list \<Rightarrow> (bool \<times> CodeBox) result" where
  "run script stack compatibilityMode ws = andThen (NewCodeBox script stack compatibilityMode) (swims ws)"

subsection \<open>Observations and predicates used in the statements\<close>

text \<open>A world with no pending input, for the concrete runs.\<close>

definition quiet :: world where
  "quiet = \<lparr>rand4 = 0, recv = None, oor_int = (\<lambda>x. 0), oor_byte = (\<lambda>x. CHR 0x00)\<rparr>"

text \<open>The pointer and the size of the grid after a run: \<open>(x, y, width, height)\<close>.\<close>

definition frame_of :: "(bool \<times> CodeBox) result \<Rightarrow> (int \<times> int \<times> int \<times> int) option" where
  "frame_of m = (case m of Inl e \<Rightarrow> None | Inr (halt, cB) \<Rightarrow> Some (fX cB, fY cB, width cB, height cB))"

text \<open>The contents of the current stack after a run.\<close>

definition stack_of :: "(bool \<times> CodeBox) result \<Rightarrow> float64 list option" where
  "stack_of m =
     (case m of Inl e \<Rightarrow> None
      | Inr (halt, cB) \<Rightarrow> (case CodeBox_Stack cB of Inl e \<Rightarrow> None | Inr xs \<Rightarrow> Some xs))"

text \<open>The pointer is inside the grid.\<close>

definition in_box :: "CodeBox \<Rightarrow> bool" where
  "in_box cB \<longleftrightarrow> 0 \<le> fX cB \<and> fX cB < width cB \<and> 0 \<le> fY cB \<and> fY cB < height cB"

text \<open>
  The grid is rectangular with the recorded size, which fits the integer type (as every
  length does in Go).
\<close>

definition rectangular :: "CodeBox \<Rightarrow> bool" where
  "rectangular cB \<longleftrightarrow>
     height cB = int (length (box cB)) \<and> list_all (\<lambda>row. int (length row) = width cB) (box cB) \<and>
     in_int64 (width cB) \<and> in_int64 (height cB)"

text \<open>The cycle that starts in \<open>cB\<close> hands the byte \<open>r\<close> to \<open>Exe\<close>.\<close>

definition dispatches :: "CodeBox \<Rightarrow> char \<Rightarrow> bool" where
  "dispatches cB r \<longleftrightarrow>
     instruction cB = Inr r \<and> \<not> (stringMode cB \<noteq> CHR 0x00 \<and> r \<noteq> stringMode cB)"

text \<open>
  The coordinates that \<^verbatim>\<open>.\<close> would pop from the current stack, converted as the
  instruction converts them: the cell below the top gives \<open>x\<close>, the top gives \<open>y\<close>. And the
  property that these coordinates are a cell of the grid.
\<close>

definition jump_target :: "world \<Rightarrow> CodeBox \<Rightarrow> (int \<times> int) option" where
  "jump_target w cB =
     (case index (stacks cB) (p cB) of
        Inl e \<Rightarrow> None
      | Inr s \<Rightarrow>
          if 2 \<le> length (S s)
          then Some (to_int w (S s ! (length (S s) - 2)), to_int w (S s ! (length (S s) - 1)))
          else None)"

definition target_inside :: "world \<Rightarrow> CodeBox \<Rightarrow> bool" where
  "target_inside w cB =
     (case jump_target w cB of
        None \<Rightarrow> False
      | Some (x, y) \<Rightarrow> 0 \<le> x \<and> x < width cB \<and> 0 \<le> y \<and> y < height cB)"

text \<open>The white space of a program text: space, tab, line feed, vertical tab, form feed, carriage return.\<close>

definition is_space :: "char \<Rightarrow> bool" where
  "is_space c \<longleftrightarrow> c \<in> {CHR '' '', CHR 0x09, CHR 0x0A, CHR 0x0B, CHR 0x0C, CHR 0x0D}"

text \<open>The instructions whose first action is a pop of the current stack.\<close>

definition pops_first :: "char \<Rightarrow> bool" where
  "pops_first r \<longleftrightarrow> r \<in> set ''on+-*,%=)(?.~[gp''"

text \<open>
  The code box that \<open>NewCodeBox\<close> builds from a script of one line, not in
  compatibility mode.
\<close>

definition one_line :: "string \<Rightarrow> float64 list \<Rightarrow> CodeBox" where
  "one_line line st =
     \<lparr>fX = 0, fY = 0, fDir = Right, width = int (length line), height = 1, box = [line],
      stacks = [NewStack st], p = 0, stringMode = CHR 0x00, compMode = False, stdout = []\<rparr>"

text \<open>Two states with the same pointer and a grid of the same shape.\<close>

definition same_shape :: "CodeBox \<Rightarrow> CodeBox \<Rightarrow> bool" where
  "same_shape cB cB' \<longleftrightarrow>
     fX cB' = fX cB \<and> fY cB' = fY cB \<and> width cB' = width cB \<and> height cB' = height cB \<and>
     map length (box cB') = map length (box cB)"

text \<open>The pointer is inside a rectangular grid; and a result that, if it is a state, has this property.\<close>

definition inside :: "CodeBox \<Rightarrow> bool" where
  "inside cB \<longleftrightarrow> in_box cB \<and> rectangular cB"

definition kept :: "(bool \<times> CodeBox) result \<Rightarrow> bool" where
  "kept m = (case m of Inl e \<Rightarrow> True | Inr (halt, cB) \<Rightarrow> inside cB)"

section \<open>Basic facts\<close>

lemma andThen_Inl [simp]: "andThen (Inl e) f = Inl e"
  by (simp add: andThen_def)

lemma andThen_Inr [simp]: "andThen (Inr x) f = f x"
  by (simp add: andThen_def)

lemma continue_Inr [simp]: "continue (Inr cB) = Inr (False, cB)"
  by (simp add: continue_def)

lemma continue_Inl [simp]: "continue (Inl e) = Inl e"
  by (simp add: continue_def)

lemma index_Inr: "index xs i = Inr x \<longleftrightarrow> 0 \<le> i \<and> i < int (length xs) \<and> x = xs ! nat i"
  by (auto simp: index_def split: if_splits)

lemma Reverse_loop_invariant:
  "int i + ii + 1 = int (length s) \<Longrightarrow> length newS = length s \<Longrightarrow>
   Reverse_loop s i ii newS = take i newS @ rev (take (nat (ii + 1)) s)"
proof (induction s i ii newS rule: Reverse_loop.induct)
  case (1 s i ii newS)
  show ?case
  proof (cases "ii \<ge> 0")
    case False
    with "1.prems" have "i \<ge> length newS" "nat (ii + 1) = 0" by auto
    with False show ?thesis by (simp add: Reverse_loop.simps [of s i ii newS])
  next
    case True
    with "1.prems" have i: "i < length newS" and ii: "nat ii < length s" by auto
    have step: "Reverse_loop s i ii newS = Reverse_loop s (i + 1) (ii - 1) (newS[i := s ! nat ii])"
      using True by (simp add: Reverse_loop.simps [of s i ii newS])
    have "Reverse_loop s (i + 1) (ii - 1) (newS[i := s ! nat ii]) =
          take (i + 1) (newS[i := s ! nat ii]) @ rev (take (nat (ii - 1 + 1)) s)"
      using True "1.prems" by (intro "1.IH") auto
    also have "take (i + 1) (newS[i := s ! nat ii]) = take i newS @ [s ! nat ii]"
      using i by (simp add: take_Suc_conv_app_nth)
    also have "nat (ii + 1) = Suc (nat ii)" using True by simp
    then have "rev (take (nat (ii + 1)) s) = (s ! nat ii) # rev (take (nat ii) s)"
      using ii by (simp add: take_Suc_conv_app_nth)
    ultimately show ?thesis using step by simp
  qed
qed

lemma Reverse_eq: "Reverse s = s\<lparr>S := rev (S s)\<rparr>"
  by (simp add: Reverse_def Reverse_loop_invariant)

lemma Pop_snoc: "S s = xs @ [x] \<Longrightarrow> Pop s = Inr (x, s\<lparr>S := xs\<rparr>)"
  by (simp add: Pop_def)

lemma Pop_empty: "S s = [] \<Longrightarrow> Pop s = Inl EmptyStack"
  by (simp add: Pop_def)

lemma SwapThree_snoc:
  "S s = xs @ [x, y, z] \<Longrightarrow> SwapThree s = Inr (s\<lparr>S := xs @ [z, x, y]\<rparr>)"
  by (simp add: SwapThree_def index_def Let_def nat_add_distrib nth_append list_update_append)

lemma fadd_commute: "fadd x y = fadd y x"
  by (auto simp: fadd_def add.commute)

lemma fmul_commute: "fmul x y = fmul y x"
  by (auto simp: fmul_def mult.commute signed_inf_def signed_zero_def)

lemma feq_commute: "feq x y = feq y x"
  by (auto simp: feq_def)

lemma CodeBox_Pop_snoc:
  "index (stacks cB) (p cB) = Inr s \<Longrightarrow> S s = xs @ [x] \<Longrightarrow>
   CodeBox_Pop cB = Inr (x, cB\<lparr>stacks := (stacks cB)[nat (p cB) := s\<lparr>S := xs\<rparr>]\<rparr>)"
  by (simp add: CodeBox_Pop_def Pop_snoc)

lemma CodeBox_Pop_empty:
  "index (stacks cB) (p cB) = Inr s \<Longrightarrow> S s = [] \<Longrightarrow> CodeBox_Pop cB = Inl EmptyStack"
  by (simp add: CodeBox_Pop_def Pop_empty)

lemma CodeBox_Push_Inr:
  "index (stacks cB) (p cB) = Inr s \<Longrightarrow>
   CodeBox_Push r cB = Inr (cB\<lparr>stacks := (stacks cB)[nat (p cB) := s\<lparr>S := S s @ [r]\<rparr>]\<rparr>)"
  by (simp add: CodeBox_Push_def on_current_def Push_def)

lemma index_update_same:
  "index xs i = Inr x \<Longrightarrow> index (xs[nat i := y]) i = Inr y"
  by (auto simp: index_def split: if_splits)

lemma Exe_SwapThree: "Exe w cB (CHR ''@'') = continue (StackSwapThree cB)"
  by (simp add: Exe_def)

lemma Exe_Register: "Exe w cB (CHR ''&'') = continue (CodeBox_Register cB)"
  by (simp add: Exe_def)

lemma Exe_jump:
  "Exe w cB (CHR ''.'') =
     andThen (CodeBox_Pop cB) (\<lambda>(y, cB).
     andThen (CodeBox_Pop (cB\<lparr>fY := to_int w y\<rparr>)) (\<lambda>(x, cB).
       Inr (False, cB\<lparr>fX := to_int w x\<rparr>)))"
  by (simp add: Exe_def)

lemma Exe_quote:
  "r = CHR 0x22 \<or> r = CHR 0x27 \<Longrightarrow>
   Exe w cB r =
     Inr (False, if stringMode cB = CHR 0x00 then cB\<lparr>stringMode := r\<rparr>
                 else if r = stringMode cB then cB\<lparr>stringMode := CHR 0x00\<rparr> else cB)"
  by (erule disjE) (simp_all add: Exe_def)

lemma pops_first_cases:
  "pops_first r \<longleftrightarrow>
     r = CHR ''o'' \<or> r = CHR ''n'' \<or> r = CHR ''+'' \<or> r = CHR ''-'' \<or> r = CHR ''*'' \<or>
     r = CHR '','' \<or> r = CHR ''%'' \<or> r = CHR ''='' \<or> r = CHR '')'' \<or> r = CHR ''('' \<or>
     r = CHR ''?'' \<or> r = CHR ''.'' \<or> r = CHR ''~'' \<or> r = CHR ''['' \<or> r = CHR ''g'' \<or>
     r = CHR ''p''"
  by (simp add: pops_first_def)

lemma Exe_pops_first:
  assumes "pops_first r" and "CodeBox_Pop cB = Inl e"
  shows "Exe w cB r = Inl e"
  using assms(1) unfolding pops_first_cases
  by (elim disjE) (simp_all add: Exe_def assms(2))

lemma Exe_binary:
  "Exe w cB (CHR ''+'') =
     andThen (CodeBox_Pop cB) (\<lambda>(x, cB). andThen (CodeBox_Pop cB) (\<lambda>(y, cB).
       continue (CodeBox_Push (fadd x y) cB)))"
  "Exe w cB (CHR ''-'') =
     andThen (CodeBox_Pop cB) (\<lambda>(x, cB). andThen (CodeBox_Pop cB) (\<lambda>(y, cB).
       continue (CodeBox_Push (fsub y x) cB)))"
  "Exe w cB (CHR ''*'') =
     andThen (CodeBox_Pop cB) (\<lambda>(x, cB). andThen (CodeBox_Pop cB) (\<lambda>(y, cB).
       continue (CodeBox_Push (fmul x y) cB)))"
  "Exe w cB (CHR '','') =
     andThen (CodeBox_Pop cB) (\<lambda>(x, cB). andThen (CodeBox_Pop cB) (\<lambda>(y, cB).
       continue (CodeBox_Push (fdiv y x) cB)))"
  "Exe w cB (CHR ''%'') =
     andThen (CodeBox_Pop cB) (\<lambda>(x, cB). andThen (CodeBox_Pop cB) (\<lambda>(y, cB).
       if to_int w x = 0 then Inl DivideByZero
       else continue (CodeBox_Push (float64_of_int (to_int w y smod to_int w x)) cB)))"
  "Exe w cB (CHR ''='') =
     andThen (CodeBox_Pop cB) (\<lambda>(x, cB). andThen (CodeBox_Pop cB) (\<lambda>(y, cB).
       continue (CodeBox_Push (if feq x y then Finite 1 else Finite 0) cB)))"
  "Exe w cB (CHR '')'') =
     andThen (CodeBox_Pop cB) (\<lambda>(x, cB). andThen (CodeBox_Pop cB) (\<lambda>(y, cB).
       continue (CodeBox_Push (if fgt y x then Finite 1 else Finite 0) cB)))"
  "Exe w cB (CHR ''('') =
     andThen (CodeBox_Pop cB) (\<lambda>(x, cB). andThen (CodeBox_Pop cB) (\<lambda>(y, cB).
       continue (CodeBox_Push (if flt y x then Finite 1 else Finite 0) cB)))"
  by (simp_all add: Exe_def)

text \<open>Two pops on the current stack, as every binary instruction makes, and a push.\<close>

lemma pop_pop:
  assumes "index (stacks cB) (p cB) = Inr s" and "S s = xs @ [b, a]"
  shows "andThen (CodeBox_Pop cB) (\<lambda>(x, cB). andThen (CodeBox_Pop cB) (\<lambda>(y, cB). k x y cB)) =
         k a b (cB\<lparr>stacks := (stacks cB)[nat (p cB) := s\<lparr>S := xs\<rparr>]\<rparr>)"
proof -
  have 1: "S s = (xs @ [b]) @ [a]" using assms(2) by simp
  let ?c1 = "cB\<lparr>stacks := (stacks cB)[nat (p cB) := s\<lparr>S := xs @ [b]\<rparr>]\<rparr>"
  have i1: "index (stacks ?c1) (p ?c1) = Inr (s\<lparr>S := xs @ [b]\<rparr>)"
    using assms(1) by (simp add: index_update_same)
  have "CodeBox_Pop cB = Inr (a, ?c1)"
    by (rule CodeBox_Pop_snoc [OF assms(1) 1])
  moreover have "CodeBox_Pop ?c1 = Inr (b, cB\<lparr>stacks := (stacks cB)[nat (p cB) := s\<lparr>S := xs\<rparr>]\<rparr>)"
    using CodeBox_Pop_snoc [OF i1, of xs b] by simp
  ultimately show ?thesis by simp
qed

lemma push_after_pops:
  assumes "index (stacks cB) (p cB) = Inr s"
  shows "CodeBox_Push v (cB\<lparr>stacks := (stacks cB)[nat (p cB) := s\<lparr>S := xs\<rparr>]\<rparr>) =
         Inr (cB\<lparr>stacks := (stacks cB)[nat (p cB) := s\<lparr>S := xs @ [v]\<rparr>]\<rparr>)"
proof -
  let ?c2 = "cB\<lparr>stacks := (stacks cB)[nat (p cB) := s\<lparr>S := xs\<rparr>]\<rparr>"
  have "index (stacks ?c2) (p ?c2) = Inr (s\<lparr>S := xs\<rparr>)"
    using assms by (simp add: index_update_same)
  from CodeBox_Push_Inr [OF this, of v] show ?thesis by simp
qed

subsection \<open>The pointer stays inside the grid\<close>

lemma andThen_InrE:
  assumes "andThen m f = Inr y"
  obtains x where "m = Inr x" and "f x = Inr y"
  using assms by (cases m) (simp_all add: andThen_def)

lemma wrap64_id: "in_int64 i \<Longrightarrow> wrap64 i = i"
  by (simp add: wrap64_def in_int64_def)

lemma same_shape_refl [simp]: "same_shape cB cB"
  by (simp add: same_shape_def)

lemma same_shape_keeps:
  assumes "same_shape cB cB'" and "in_box cB" and "rectangular cB"
  shows "in_box cB' \<and> rectangular cB'"
proof -
  from assms(1) have m: "map length (box cB') = map length (box cB)"
    by (simp add: same_shape_def)
  then have len: "length (box cB') = length (box cB)"
    by (rule map_eq_imp_length_eq)
  have "list_all (\<lambda>n. int n = width cB) (map length (box cB))"
    using assms(3) by (simp add: rectangular_def list_all_iff)
  then have "list_all (\<lambda>n. int n = width cB) (map length (box cB'))"
    using m by simp
  then have "list_all (\<lambda>row. int (length row) = width cB) (box cB')"
    by (simp add: list_all_iff)
  then show ?thesis
    using assms len by (auto simp: same_shape_def in_box_def rectangular_def)
qed

lemma Move_keeps:
  assumes "in_box cB" and "rectangular cB"
  shows "in_box (Move cB) \<and> rectangular (Move cB)"
proof -
  have "in_int64 (fX cB + 1)" "in_int64 (fX cB - 1)" "in_int64 (fY cB + 1)" "in_int64 (fY cB - 1)"
    using assms by (auto simp: in_box_def rectangular_def in_int64_def)
  then show ?thesis using assms
    by (cases "fDir cB") (auto simp: Move_def Let_def wrap64_id in_box_def rectangular_def)
qed

lemma on_current_shape: "on_current f cB = Inr cB' \<Longrightarrow> same_shape cB cB'"
  by (auto simp: on_current_def same_shape_def elim!: andThen_InrE)

lemma CodeBox_Push_shape: "CodeBox_Push r cB = Inr cB' \<Longrightarrow> same_shape cB cB'"
  unfolding CodeBox_Push_def by (rule on_current_shape)

lemma CodeBox_Pop_shape: "CodeBox_Pop cB = Inr (x, cB') \<Longrightarrow> same_shape cB cB'"
  by (auto simp: CodeBox_Pop_def same_shape_def elim!: andThen_InrE)

lemma CloseStack_shape: "CloseStack cB = Inr cB' \<Longrightarrow> same_shape cB cB'"
  by (auto simp: CloseStack_def Let_def same_shape_def elim!: andThen_InrE split: if_splits)

lemma CodeBox_NewStack_shape: "CodeBox_NewStack n cB = Inr cB' \<Longrightarrow> same_shape cB cB'"
  by (auto simp: CodeBox_NewStack_def Let_def same_shape_def elim!: andThen_InrE split: if_splits)

lemma box_write_shape:
  assumes "index (box cB) iy = Inr row"
  shows "same_shape cB (cB\<lparr>box := (box cB)[nat iy := row[nat ix := b]]\<rparr>)"
proof -
  from assms have "nat iy < length (box cB)" and "row = box cB ! nat iy"
    by (auto simp: index_Inr)
  then show ?thesis
    by (simp add: same_shape_def map_update list_update_same_conv)
qed

lemma inside_same_shape: "same_shape cB cB' \<Longrightarrow> inside cB \<Longrightarrow> inside cB'"
  using same_shape_keeps by (simp add: inside_def)

lemma inside_Move [simp]: "inside cB \<Longrightarrow> inside (Move cB)"
  using Move_keeps by (simp add: inside_def)

lemma inside_update [simp]:
  "inside (cB\<lparr>fDir := d\<rparr>) = inside cB"
  "inside (cB\<lparr>stringMode := m\<rparr>) = inside cB"
  "inside (cB\<lparr>stdout := out\<rparr>) = inside cB"
  "inside (cB\<lparr>stacks := ss\<rparr>) = inside cB"
  "inside (cB\<lparr>p := i\<rparr>) = inside cB"
  by (simp_all add: inside_def in_box_def rectangular_def)

lemma inside_box_write:
  "index (box cB) iy = Inr row \<Longrightarrow> inside cB \<Longrightarrow>
   inside (cB\<lparr>box := (box cB)[nat iy := row[nat ix := b]]\<rparr>)"
  using box_write_shape inside_same_shape by blast

lemma kept_Inl: "kept (Inl e)"
  by (simp add: kept_def)

lemma kept_Inr: "inside cB \<Longrightarrow> kept (Inr (h, cB))"
  by (simp add: kept_def)

lemma kept_if: "(c \<Longrightarrow> kept a) \<Longrightarrow> (\<not> c \<Longrightarrow> kept b) \<Longrightarrow> kept (if c then a else b)"
  by simp

lemma kept_index:
  "(\<And>x. index xs i = Inr x \<Longrightarrow> kept (f x)) \<Longrightarrow> kept (andThen (index xs i) f)"
  by (cases "index xs i") (simp_all add: kept_def)

lemma kept_pop:
  assumes "inside cB" and "\<And>x c. inside c \<Longrightarrow> kept (f x c)"
  shows "kept (andThen (CodeBox_Pop cB) (\<lambda>(x, c). f x c))"
proof (cases "CodeBox_Pop cB")
  case (Inr a)
  obtain x c where a: "a = (x, c)" by (cases a)
  with Inr have "same_shape cB c" by (simp add: CodeBox_Pop_shape)
  with assms(1) have "inside c" by (rule inside_same_shape [rotated])
  with assms(2) Inr a show ?thesis by simp
qed (simp add: kept_def)

lemma kept_continue:
  assumes "\<And>c. m = Inr c \<Longrightarrow> inside c"
  shows "kept (continue m)"
  using assms by (cases m) (simp_all add: kept_def)

lemma kept_StackLength:
  "(\<And>x. kept (f x)) \<Longrightarrow> kept (andThen (StackLength cB) f)"
  by (cases "StackLength cB") (simp_all add: kept_def)

lemma inside_on_current: "on_current f cB = Inr c \<Longrightarrow> inside cB \<Longrightarrow> inside c"
  using on_current_shape inside_same_shape by blast

lemma inside_step:
  "CodeBox_Push v cB = Inr c \<Longrightarrow> inside cB \<Longrightarrow> inside c"
  "CodeBox_Register cB = Inr c \<Longrightarrow> inside cB \<Longrightarrow> inside c"
  "ReverseStack cB = Inr c \<Longrightarrow> inside cB \<Longrightarrow> inside c"
  "ExtendStack cB = Inr c \<Longrightarrow> inside cB \<Longrightarrow> inside c"
  "StackSwapTwo cB = Inr c \<Longrightarrow> inside cB \<Longrightarrow> inside c"
  "StackSwapThree cB = Inr c \<Longrightarrow> inside cB \<Longrightarrow> inside c"
  "StackShiftRight cB = Inr c \<Longrightarrow> inside cB \<Longrightarrow> inside c"
  "StackShiftLeft cB = Inr c \<Longrightarrow> inside cB \<Longrightarrow> inside c"
  "CloseStack cB = Inr c \<Longrightarrow> inside cB \<Longrightarrow> inside c"
  "CodeBox_NewStack n cB = Inr c \<Longrightarrow> inside cB \<Longrightarrow> inside c"
  unfolding CodeBox_Push_def CodeBox_Register_def ReverseStack_def ExtendStack_def
    StackSwapTwo_def StackSwapThree_def StackShiftRight_def StackShiftLeft_def
  by (blast intro: inside_on_current inside_same_shape CloseStack_shape CodeBox_NewStack_shape)+

lemma Exe_kept:
  assumes "inside cB" and "r \<noteq> CHR ''.''"
  shows "kept (Exe w cB r)"
  unfolding Exe_def
  apply (intro kept_if kept_pop kept_index kept_StackLength kept_Inl kept_Inr kept_continue)
  using assms
  apply (simp_all add: inside_box_write)
  apply ((erule (1) inside_step)+)
  done

lemma Swim_kept:
  assumes "inside cB" and "\<not> dispatches cB (CHR ''.'')"
  shows "kept (Swim w cB)"
proof (cases "instruction cB")
  case (Inl e)
  then show ?thesis by (simp add: Swim_def kept_def)
next
  case (Inr r)
  show ?thesis
  proof (cases "stringMode cB \<noteq> CHR 0x00 \<and> r \<noteq> stringMode cB")
    case True
    have "kept (continue (CodeBox_Push (float64_of_byte r) cB))"
      using assms(1) by (intro kept_continue) (erule inside_step)
    then show ?thesis using Inr True
      by (cases "CodeBox_Push (float64_of_byte r) cB") (auto simp: Swim_def kept_def)
  next
    case False
    with Inr assms(2) have "r \<noteq> CHR ''.''" by (auto simp: dispatches_def)
    with assms(1) have "kept (Exe w cB r)" by (rule Exe_kept)
    then show ?thesis using Inr False
      by (cases "Exe w cB r") (auto simp: Swim_def kept_def)
  qed
qed

subsection \<open>Loading a script\<close>

lemma Split_not_Nil [simp]: "Split s \<noteq> []"
  by (induction s) auto

lemma length_Split: "length (Split s) \<le> length s + 1"
  by (induction s) auto

lemma Split_line_length: "l \<in> set (Split s) \<Longrightarrow> length l \<le> length s"
proof (induction s arbitrary: l)
  case Nil
  then show ?case by simp
next
  case (Cons c cs)
  show ?case
  proof (cases "c = CHR 0x0A")
    case True
    with Cons show ?thesis by fastforce
  next
    case False
    with Cons.prems have "l = c # hd (Split cs) \<or> l \<in> set (tl (Split cs))" by simp
    then show ?thesis
    proof
      assume "l = c # hd (Split cs)"
      moreover have "length (hd (Split cs)) \<le> length cs"
        by (intro Cons.IH) simp
      ultimately show ?thesis by simp
    next
      assume "l \<in> set (tl (Split cs))"
      then have "l \<in> set (Split cs)" by (rule list.set_sel(2) [rotated]) simp
      then show ?thesis using Cons.IH by fastforce
    qed
  qed
qed

lemma Split_mem:
  "ch \<in> set s \<Longrightarrow> ch \<noteq> CHR 0x0A \<Longrightarrow> \<exists>l \<in> set (Split s). ch \<in> set l"
proof (induction s)
  case Nil
  then show ?case by simp
next
  case (Cons c cs)
  have ht: "hd (Split cs) # tl (Split cs) = Split cs" by simp
  show ?case
  proof (cases "ch = c")
    case True
    with Cons.prems show ?thesis by auto
  next
    case False
    with Cons obtain l where l: "l \<in> set (Split cs)" "ch \<in> set l" by auto
    show ?thesis
    proof (cases "c = CHR 0x0A")
      case True
      with l show ?thesis by auto
    next
      case False
      from l(1) ht have "l = hd (Split cs) \<or> l \<in> set (tl (Split cs))"
        by (metis set_ConsD)
      with l(2) False show ?thesis by auto
    qed
  qed
qed

lemma fold_longest_start:
  "a \<le> fold (\<lambda>(s :: string) l. if int (length s) > l then int (length s) else l) ls a"
proof (induction ls arbitrary: a)
  case Nil
  show ?case by simp
next
  case (Cons x xs)
  let ?b = "if int (length x) > a then int (length x) else a"
  have "a \<le> ?b" by simp
  also have "?b \<le> fold (\<lambda>(s :: string) l. if int (length s) > l then int (length s) else l) xs ?b"
    by (rule Cons.IH)
  finally show ?case by simp
qed

lemma fold_longest_mem:
  "l \<in> set ls \<Longrightarrow>
   int (length l) \<le> fold (\<lambda>(s :: string) l. if int (length s) > l then int (length s) else l) ls a"
proof (induction ls arbitrary: a)
  case Nil
  then show ?case by simp
next
  case (Cons x xs)
  let ?b = "if int (length x) > a then int (length x) else a"
  show ?case
  proof (cases "l = x")
    case True
    have "int (length l) \<le> ?b" using True by simp
    also have "?b \<le> fold (\<lambda>(s :: string) l. if int (length s) > l then int (length s) else l) xs ?b"
      by (rule fold_longest_start)
    finally show ?thesis by simp
  next
    case False
    with Cons.prems have "l \<in> set xs" by simp
    from Cons.IH [OF this, of ?b] show ?thesis by simp
  qed
qed

lemma fold_longest_bound:
  "a \<le> b \<Longrightarrow> (\<And>l. l \<in> set ls \<Longrightarrow> int (length l) \<le> b) \<Longrightarrow>
   fold (\<lambda>(s :: string) l. if int (length s) > l then int (length s) else l) ls a \<le> b"
proof (induction ls arbitrary: a)
  case Nil
  then show ?case by simp
next
  case (Cons x xs)
  let ?b = "if int (length x) > a then int (length x) else a"
  have "?b \<le> b" using Cons.prems by simp
  from Cons.IH [OF this] Cons.prems(2) show ?case by simp
qed

lemma longestLineLength_ge0: "0 \<le> longestLineLength ls"
  unfolding longestLineLength_def by (rule fold_longest_start)

lemma longestLineLength_ge: "l \<in> set ls \<Longrightarrow> int (length l) \<le> longestLineLength ls"
  unfolding longestLineLength_def by (rule fold_longest_mem)

lemma longestLineLength_le:
  "0 \<le> b \<Longrightarrow> (\<And>l. l \<in> set ls \<Longrightarrow> int (length l) \<le> b) \<Longrightarrow> longestLineLength ls \<le> b"
  unfolding longestLineLength_def by (rule fold_longest_bound)

lemma length_box_row [simp]: "length (box_row w s) = nat w"
  by (simp add: box_row_def)

text \<open>What \<open>NewCodeBox\<close> returns when it does not panic.\<close>

lemma NewCodeBox_cases:
  fixes script :: string
  defines "prog \<equiv> filter (\<lambda>c. c \<noteq> CHR 0x0D) script"
  shows "NewCodeBox script stack c =
     (if prog = [] \<or> prog = [CHR 0x0A] then Inl EmptyProgram
      else Inr \<lparr>fX = 0, fY = 0, fDir = Right, width = longestLineLength (Split prog),
                height = int (length (Split prog)),
                box = map (box_row (longestLineLength (Split prog))) (Split prog),
                stacks = [NewStack stack], p = 0,
                stringMode = CHR 0x00, compMode = c, stdout = []\<rparr>)"
  by (simp add: NewCodeBox_def prog_def Let_def)

lemma NewCodeBox_rectangular:
  assumes "NewCodeBox script stack c = Inr cB" and "int (length script) + 1 < 2 ^ 63"
  shows "rectangular cB" and "0 < height cB"
proof -
  define prog where "prog = filter (\<lambda>c. c \<noteq> CHR 0x0D) script"
  have len: "length prog \<le> length script" by (simp add: prog_def)
  from assms(1) have cB: "width cB = longestLineLength (Split prog)"
      "height cB = int (length (Split prog))"
      "box cB = map (box_row (longestLineLength (Split prog))) (Split prog)"
    by (auto simp: NewCodeBox_cases prog_def split: if_splits)
  have w0: "0 \<le> width cB" by (simp add: cB longestLineLength_ge0)
  have "width cB \<le> int (length prog)"
    unfolding cB by (rule longestLineLength_le) (simp_all add: Split_line_length)
  with len assms(2) w0 have w: "in_int64 (width cB)" by (simp add: in_int64_def)
  have "height cB \<le> int (length prog) + 1"
    using length_Split [of prog] by (simp add: cB)
  with len assms(2) have h: "in_int64 (height cB)" by (simp add: in_int64_def cB)
  show "rectangular cB"
    using w h w0 by (simp add: rectangular_def cB list_all_iff)
  show "0 < height cB" by (simp add: cB)
qed

lemma NewCodeBox_instruction:
  assumes "NewCodeBox script stack c = Inr cB" and "0 < width cB"
  shows "in_box cB" and "\<exists>r. instruction cB = Inr r"
proof -
  define prog where "prog = filter (\<lambda>c. c \<noteq> CHR 0x0D) script"
  from assms(1) have cB: "width cB = longestLineLength (Split prog)"
      "height cB = int (length (Split prog))"
      "box cB = map (box_row (longestLineLength (Split prog))) (Split prog)"
      "fX cB = 0" "fY cB = 0"
    by (auto simp: NewCodeBox_cases prog_def split: if_splits)
  show "in_box cB" using assms(2) by (simp add: in_box_def cB)
  have "index (box cB) (fY cB) = Inr (box cB ! 0)"
    by (simp add: index_def cB)
  moreover have "length (box cB ! 0) = nat (width cB)"
    by (simp add: cB)
  then have "index (box cB ! 0) (fX cB) = Inr (box cB ! 0 ! 0)"
    using assms(2) by (simp add: index_def cB(4))
  ultimately show "\<exists>r. instruction cB = Inr r"
    by (simp add: instruction_def)
qed

lemma NewCodeBox_width:
  assumes "NewCodeBox script stack c = Inr cB" and "ch \<in> set script"
    and "ch \<noteq> CHR 0x0D" and "ch \<noteq> CHR 0x0A"
  shows "0 < width cB"
proof -
  define prog where "prog = filter (\<lambda>c. c \<noteq> CHR 0x0D) script"
  from assms(1) have cB: "width cB = longestLineLength (Split prog)"
    by (auto simp: NewCodeBox_cases prog_def split: if_splits)
  from assms(2,3) have "ch \<in> set prog"
    by (simp add: prog_def)
  then obtain l where l: "l \<in> set (Split prog)" "ch \<in> set l"
    using Split_mem assms(4) by blast
  then have "0 < int (length l)" by (cases l) auto
  with longestLineLength_ge [OF l(1)] show ?thesis unfolding cB by linarith
qed

lemma NewCodeBox_loads:
  assumes "ch \<in> set script" and "ch \<noteq> CHR 0x0D" and "ch \<noteq> CHR 0x0A"
  shows "\<exists>cB. NewCodeBox script stack c = Inr cB"
proof -
  define prog where "prog = filter (\<lambda>c. c \<noteq> CHR 0x0D) script"
  from assms have "ch \<in> set prog"
    by (simp add: prog_def)
  with assms(3) have "prog \<noteq> []" and "prog \<noteq> [CHR 0x0A]" by auto
  then show ?thesis by (simp add: NewCodeBox_cases prog_def)
qed

text \<open>A script with a byte other than carriage return and line feed can start.\<close>

lemma NewCodeBox_starts:
  assumes "ch \<in> set script" and "ch \<noteq> CHR 0x0D" and "ch \<noteq> CHR 0x0A"
  shows "\<exists>cB r. NewCodeBox script stack c = Inr cB \<and> in_box cB \<and> instruction cB = Inr r"
proof -
  from assms obtain cB where cB: "NewCodeBox script stack c = Inr cB"
    using NewCodeBox_loads by blast
  from cB assms have "0 < width cB" by (rule NewCodeBox_width)
  with cB have "in_box cB" and "\<exists>r. instruction cB = Inr r"
    by (rule NewCodeBox_instruction)+
  with cB show ?thesis by blast
qed

subsection \<open>Values of small integers, and scripts of one line\<close>

lemma bitlen_le: "n < 2 ^ k \<Longrightarrow> bitlen n \<le> k"
proof (induction k arbitrary: n)
  case 0
  then show ?case by (simp add: bitlen.simps)
next
  case (Suc k)
  show ?case
  proof (cases "n = 0")
    case True
    then show ?thesis by (simp add: bitlen.simps)
  next
    case False
    from Suc.prems have "n div 2 < 2 ^ k" by simp
    then have "bitlen (n div 2) \<le> k" by (rule Suc.IH)
    with False show ?thesis by (simp add: bitlen.simps [of n])
  qed
qed

lemma pow2_nonpos: "e \<le> 0 \<Longrightarrow> pow2 e = 1 / 2 ^ nat (- e)"
  by (cases "e = 0") (simp_all add: pow2_def)

lemma round_half_even_of_int [simp]: "round_half_even (of_int m) = m"
  by (simp add: round_half_even_def)

lemma ilog2_of_nat_le:
  assumes "n < 2 ^ 53"
  shows "ilog2 (of_nat n) \<le> 52"
proof -
  have q: "quotient_of (of_nat n) = (int n, 1)"
    using quotient_of_int [of "int n"] by simp
  have "bitlen n \<le> 53" using assms by (rule bitlen_le)
  moreover have "bitlen 1 = 1" by (simp add: bitlen.simps [of "Suc 0"] bitlen.simps [of 0])
  ultimately show ?thesis
    by (simp add: ilog2_def q Let_def)
qed

lemma round64_unfold:
  assumes "q \<noteq> 0"
    and "round_half_even (\<bar>q\<bar> / pow2 (max (ilog2 \<bar>q\<bar>) (- 1022) - 52)) = m"
    and "of_int m * pow2 (max (ilog2 \<bar>q\<bar>) (- 1022) - 52) = v"
  shows "round64 q =
     (if pow2 1024 \<le> v then (if q < 0 then NegInf else PosInf)
      else if m = 0 then (if q < 0 then NegZero else Finite 0)
      else Finite (if q < 0 then - v else v))"
  by (simp only: round64_def Let_def assms if_False)

text \<open>Integers below \<open>2^53\<close> in absolute value are cells, and rounding leaves them as they are.\<close>

lemma round64_of_int:
  assumes "\<bar>n\<bar> < 2 ^ 53"
  shows "round64 (of_int n) = Finite (of_int n)"
proof (cases "n = 0")
  case True
  then show ?thesis by (simp add: round64_def)
next
  case False
  let ?a = "\<bar>of_int n :: rat\<bar>"
  let ?e = "max (ilog2 ?a) (- 1022) - 52"
  let ?m = "\<bar>n\<bar> * 2 ^ nat (- ?e)"
  have a: "?a = of_nat (nat \<bar>n\<bar>)" by simp
  have "nat \<bar>n\<bar> < 2 ^ 53" using assms by (simp add: nat_less_iff)
  then have "ilog2 ?a \<le> 52" unfolding a by (rule ilog2_of_nat_le)
  then have e: "?e \<le> 0" by simp
  have div: "?a / pow2 ?e = of_int ?m"
    by (simp add: pow2_nonpos [OF e])
  have m: "round_half_even (?a / pow2 ?e) = ?m"
    by (simp only: div round_half_even_of_int)
  have v: "of_int ?m * pow2 ?e = ?a"
    by (simp add: pow2_nonpos [OF e])
  have "?a < 2 ^ 53"
  proof -
    have "(of_int \<bar>n\<bar> :: rat) < of_int (2 ^ 53)" using assms by (simp only: of_int_less_iff)
    then show ?thesis by simp
  qed
  also have "(2 :: rat) ^ 53 < 2 ^ 1024" by simp
  finally have small: "\<not> pow2 1024 \<le> ?a" by (simp add: pow2_def)
  have nz: "?m \<noteq> 0" using False by simp
  have q: "(of_int n :: rat) \<noteq> 0" using False by simp
  have "round64 (of_int n) =
     (if pow2 1024 \<le> ?a then (if (of_int n :: rat) < 0 then NegInf else PosInf)
      else if ?m = 0 then (if (of_int n :: rat) < 0 then NegZero else Finite 0)
      else Finite (if (of_int n :: rat) < 0 then - ?a else ?a))"
    by (rule round64_unfold [OF q m v])
  also have "\<dots> = Finite (if (of_int n :: rat) < 0 then - ?a else ?a)"
    using small nz by (simp only: if_False)
  also have "(if (of_int n :: rat) < 0 then - ?a else ?a) = of_int n"
    by simp
  finally show ?thesis .
qed

lemma float64_of_int_exact: "\<bar>n\<bar> < 2 ^ 53 \<Longrightarrow> float64_of_int n = Finite (of_int n)"
  by (simp add: float64_of_int_def round64_of_int)

lemma float64_of_byte_exact: "float64_of_byte c = Finite (of_int (of_char c))"
proof -
  have "int (of_char c) < int 256"
    by (simp only: of_nat_less_iff nat_of_char_less_256)
  moreover have "\<bar>int (of_char c)\<bar> = int (of_char c)" by (rule abs_of_nat)
  ultimately have "\<bar>int (of_char c)\<bar> < 256" by (simp only: of_nat_numeral)
  also have "(256 :: int) < 2 ^ 53" by simp
  finally have "\<bar>of_char c :: int\<bar> < 2 ^ 53" by (simp only: of_nat_of_char)
  then show ?thesis by (simp add: float64_of_byte_def float64_of_int_exact)
qed

lemma round64_numeral:
  "(numeral k :: int) < 2 ^ 53 \<Longrightarrow> round64 (numeral k) = Finite (numeral k)"
  using round64_of_int [of "numeral k"] by simp

lemma small_values:
  "float64_of_byte (digit_value (CHR ''2'')) = Finite 2"
  "float64_of_byte (digit_value (CHR ''5'')) = Finite 5"
  "float64_of_byte (digit_value (CHR ''9'')) = Finite 9"
  "float64_of_byte (CHR '';'') = Finite 59"
  "fsub (Finite 5) (Finite 2) = Finite 3"
  "fdiv (Finite 8) (Finite 2) = Finite 4"
  by (simp_all add: float64_of_byte_exact digit_value_def fsub_def fadd_def fdiv_def
        is_inf_def is_zero_def round64_numeral)

lemma Split_one_line: "CHR 0x0A \<notin> set s \<Longrightarrow> Split s = [s]"
  by (induction s) auto

lemma box_row_full: "box_row (int (length s)) s = s"
  by (auto simp: box_row_def intro: nth_equalityI)

lemma NewCodeBox_one_line:
  assumes "line \<noteq> []" and "CHR 0x0D \<notin> set line" and "CHR 0x0A \<notin> set line"
  shows "NewCodeBox line st c = Inr ((one_line line st)\<lparr>compMode := c\<rparr>)"
proof -
  have "filter (\<lambda>c. c \<noteq> CHR 0x0D) line = line"
    using assms(2) by (auto simp: filter_id_conv)
  then show ?thesis
    using assms(1,3)
    by (auto simp: NewCodeBox_cases Split_one_line longestLineLength_def box_row_full one_line_def)
qed

lemma to_int_small:
  "to_int w (Finite 0) = 0" "to_int w (Finite 2) = 2" "to_int w (Finite 5) = 5" "to_int w (Finite 9) = 9"
  by (simp_all add: to_int_def trunc_def in_int64_def)

lemmas run_eval =
  run_def Swim_def instruction_def index_def one_line_def stack_of_def frame_of_def
  CodeBox_Stack_def CodeBox_Pop_def CodeBox_Push_def on_current_def Pop_def Push_def NewStack_def
  Move_def wrap64_def Let_def small_values to_int_small

subsection \<open>Single instructions, and opening and closing a stack\<close>

lemma Exe_stack_ops:
  "Exe w cB (CHR ''['') =
     andThen (CodeBox_Pop cB) (\<lambda>(n, cB). continue (CodeBox_NewStack (to_int w n) cB))"
  "Exe w cB (CHR '']'') = continue (CloseStack cB)"
  "Exe w cB (CHR ''~'') = andThen (CodeBox_Pop cB) (\<lambda>(x, cB). Inr (False, cB))"
  "Exe w cB (CHR ''!'') = Inr (False, Move cB)"
  "Exe w cB (CHR ''2'') = continue (CodeBox_Push (float64_of_byte (digit_value (CHR ''2''))) cB)"
  "Exe w cB (CHR ''5'') = continue (CodeBox_Push (float64_of_byte (digit_value (CHR ''5''))) cB)"
  "Exe w cB (CHR ''9'') = continue (CodeBox_Push (float64_of_byte (digit_value (CHR ''9''))) cB)"
  by (simp_all add: Exe_def)

lemmas stack_eval =
  Exe_stack_ops CodeBox_NewStack_def CloseStack_def Reverse_eq slice_from_def slice_to_def


text \<open>
  Opening a stack at a depth that has no slot yet, and closing it at once, gives back the
  contents of the current stack: the branch of \<open>CodeBox_NewStack\<close> that appends a slot
  cuts the moved cells off the parent.
\<close>

lemma fresh_round_trip:
  assumes "index (stacks cB) (p cB) = Inr s" and "p cB + 1 = int (length (stacks cB))"
    and "0 \<le> n" and "n \<le> int (length (S s))"
  shows "andThen (CodeBox_NewStack n cB) (\<lambda>cB. andThen (CloseStack cB) CodeBox_Stack) = Inr (S s)"
proof -
  from assms(1) have p0: "0 \<le> p cB" and s: "s = stacks cB ! nat (p cB)"
    by (auto simp: index_Inr)
  from assms(2) p0 have len: "length (stacks cB) = Suc (nat (p cB))" by linarith
  let ?k = "nat (int (length (S s)) - n)"
  have tk: "take ?k (S s) @ drop ?k (S s) = S s" by simp
  show ?thesis
    using assms p0 s [symmetric] len tk
    by (cases "compMode cB")
       (simp_all add: CodeBox_NewStack_def CloseStack_def CodeBox_Stack_def Reverse_eq slice_from_def
          slice_to_def index_def Let_def NewStack_def nth_append nat_add_distrib)
qed

subsection \<open>The jump, and values of the binary instructions\<close>

lemma Exe_jump_snoc:
  assumes "index (stacks cB) (p cB) = Inr s" and "S s = xs @ [x, y]"
  shows "Exe w cB (CHR ''.'') =
      Inr (False, cB\<lparr>fX := to_int w x, fY := to_int w y,
                       stacks := (stacks cB)[nat (p cB) := s\<lparr>S := xs\<rparr>]\<rparr>)"
proof -
  have 1: "S s = (xs @ [x]) @ [y]" using assms(2) by simp
  let ?c1 = "cB\<lparr>stacks := (stacks cB)[nat (p cB) := s\<lparr>S := xs @ [x]\<rparr>]\<rparr>"
  let ?c1' = "?c1\<lparr>fY := to_int w y\<rparr>"
  have i1: "index (stacks ?c1') (p ?c1') = Inr (s\<lparr>S := xs @ [x]\<rparr>)"
    using assms(1) by (simp add: index_update_same)
  have p1: "CodeBox_Pop cB = Inr (y, ?c1)"
    by (rule CodeBox_Pop_snoc [OF assms(1) 1])
  have p2: "CodeBox_Pop ?c1' =
      Inr (x, ?c1'\<lparr>stacks := (stacks ?c1')[nat (p ?c1') := s\<lparr>S := xs\<rparr>]\<rparr>)"
    using CodeBox_Pop_snoc [OF i1, of xs x] by simp
  show ?thesis unfolding Exe_jump using p1 p2 by simp
qed

lemma Exe_jump_Inr:
  assumes "Exe w cB (CHR ''.'') = Inr (h, cB')"
  obtains s xs x y where "index (stacks cB) (p cB) = Inr s" and "S s = xs @ [x, y]"
proof -
  from assms obtain a where a: "CodeBox_Pop cB = Inr a"
    unfolding Exe_jump by (cases "CodeBox_Pop cB") simp_all
  then obtain s where s: "index (stacks cB) (p cB) = Inr s"
    unfolding CodeBox_Pop_def by (cases "index (stacks cB) (p cB)") simp_all
  have "S s \<noteq> []"
  proof
    assume "S s = []"
    with s have "CodeBox_Pop cB = Inl EmptyStack" by (rule CodeBox_Pop_empty)
    with a show False by simp
  qed
  then obtain ys y where ys: "S s = ys @ [y]" by (metis rev_exhaust)
  let ?c1 = "cB\<lparr>stacks := (stacks cB)[nat (p cB) := s\<lparr>S := ys\<rparr>]\<rparr>"
  let ?c1' = "?c1\<lparr>fY := to_int w y\<rparr>"
  have p1: "CodeBox_Pop cB = Inr (y, ?c1)" by (rule CodeBox_Pop_snoc [OF s ys])
  have i1: "index (stacks ?c1') (p ?c1') = Inr (s\<lparr>S := ys\<rparr>)"
    using s by (simp add: index_update_same)
  have "ys \<noteq> []"
  proof
    assume "ys = []"
    then have "CodeBox_Pop ?c1' = Inl EmptyStack"
      using CodeBox_Pop_empty [OF i1] by simp
    with assms p1 show False unfolding Exe_jump by simp
  qed
  then obtain xs x where "ys = xs @ [x]" by (metis rev_exhaust)
  with ys have "S s = xs @ [x, y]" by simp
  with s show ?thesis by (rule that)
qed

text \<open>A cycle that hands \<^verbatim>\<open>.\<close> to \<open>Exe\<close> and returns a state.\<close>

lemma Swim_jump:
  assumes "dispatches cB (CHR ''.'')" and "Swim w cB = Inr (h, cB')"
  obtains s xs x y where "index (stacks cB) (p cB) = Inr s" and "S s = xs @ [x, y]"
    and "jump_target w cB = Some (to_int w x, to_int w y)"
    and "cB' = Move (cB\<lparr>fX := to_int w x, fY := to_int w y,
                          stacks := (stacks cB)[nat (p cB) := s\<lparr>S := xs\<rparr>]\<rparr>)"
proof -
  from assms(1) have i: "instruction cB = Inr (CHR ''.'')"
    and m: "\<not> (stringMode cB \<noteq> CHR 0x00 \<and> CHR ''.'' \<noteq> stringMode cB)"
    by (simp_all add: dispatches_def)
  have sw: "Swim w cB =
      andThen (Exe w cB (CHR ''.'')) (\<lambda>(halt, cB). if halt then Inr (True, cB) else Inr (False, Move cB))"
    using i m by (auto simp: Swim_def)
  with assms(2) obtain h1 c1 where e: "Exe w cB (CHR ''.'') = Inr (h1, c1)"
    by (cases "Exe w cB (CHR ''.'')") auto
  then obtain s xs x y where s: "index (stacks cB) (p cB) = Inr s" and xs: "S s = xs @ [x, y]"
    by (rule Exe_jump_Inr)
  have t: "jump_target w cB = Some (to_int w x, to_int w y)"
    using s xs by (simp add: jump_target_def nth_append)
  have "cB' = Move (cB\<lparr>fX := to_int w x, fY := to_int w y,
                          stacks := (stacks cB)[nat (p cB) := s\<lparr>S := xs\<rparr>]\<rparr>)"
    using assms(2) sw Exe_jump_snoc [OF s xs, of w] by simp
  with s xs t show ?thesis by (rule that)
qed

lemma Move_pointer:
  "fX (Move (cB\<lparr>stacks := ss\<rparr>)) = fX (Move cB)" "fY (Move (cB\<lparr>stacks := ss\<rparr>)) = fY (Move cB)"
  by (simp_all add: Move_def Let_def split: Direction.split)

lemma rectangular_Move [simp]: "rectangular (Move cB) = rectangular cB"
  by (simp add: Move_def Let_def rectangular_def split: Direction.split)

lemma floor_values: "\<lfloor>15 / 2 :: rat\<rfloor> = 7" "\<lfloor>5 / 2 :: rat\<rfloor> = 2"
  by (rule floor_unique; simp)+

lemma binary_values:
  "fadd (Finite 5) (Finite 2) = Finite 7"
  "fmul (Finite 5) (Finite 2) = Finite 10"
  "feq (Finite 5) (Finite 2) = False" "feq (Finite 5) (Finite 5) = True"
  "fgt (Finite 5) (Finite 2) = True" "fgt (Finite 2) (Finite 5) = False"
  "flt (Finite 5) (Finite 2) = False" "flt (Finite 2) (Finite 5) = True"
  "to_int w (Finite 7) = 7" "to_int w (Finite 3) = 3" "to_int w (Finite (- 7)) = - 7"
  "to_int w (Finite (15 / 2)) = 7" "to_int w (Finite (5 / 2)) = 2"
  "float64_of_int 1 = Finite 1" "float64_of_int (- 1) = Finite (- 1)"
  "(7 :: int) smod 3 = 1" "(- 7 :: int) smod 3 = - 1" "(7 :: int) smod 2 = 1"
  by (simp_all add: fadd_def fmul_def feq_def fgt_def flt_def is_inf_def is_zero_def
        round64_numeral to_int_def trunc_def in_int64_def float64_of_int_exact
        signed_modulo_int_def floor_values)

section \<open>The claims\<close>

subsection \<open>C1: rotating the top three cells\<close>

text \<open>
  Claim C1, as the code has it. On a current stack that is, from bottom to top,
  \<open>xs @ [x, y, z]\<close>, the instruction \<^verbatim>\<open>@\<close> leaves \<open>xs @ [z, x, y]\<close>: the old top goes
  below the other two, which move up by one place. Nothing else of the state changes, and the
  instruction does not halt. On \<open>[1, 2, 3, 4]\<close> the result is \<open>[1, 4, 2, 3]\<close>, as the comment
  of \<^verbatim>\<open>SwapThree\<close> says.
\<close>

theorem C1_rotate_top_three:
  assumes "index (stacks cB) (p cB) = Inr s" and "S s = xs @ [x, y, z]"
  shows "Exe w cB (CHR ''@'') =
         Inr (False, cB\<lparr>stacks := (stacks cB)[nat (p cB) := s\<lparr>S := xs @ [z, x, y]\<rparr>]\<rparr>)"
  using assms by (simp add: Exe_SwapThree StackSwapThree_def on_current_def SwapThree_snoc)

text \<open>
  Claim C1, at the stack \<open>[1, 2, 3, 4]\<close>: the result is \<open>[1, 4, 2, 3]\<close>.
\<close>

theorem C1_rotate_top_three_witness:
  "Exe quiet (one_line ''@'' [Finite 1, Finite 2, Finite 3, Finite 4]) (CHR ''@'') =
     Inr (False, one_line ''@'' [Finite 1, Finite 4, Finite 2, Finite 3])"
  using C1_rotate_top_three [of "one_line ''@'' [Finite 1, Finite 2, Finite 3, Finite 4]"
      "NewStack [Finite 1, Finite 2, Finite 3, Finite 4]" "[Finite 1]" "Finite 2" "Finite 3" "Finite 4" quiet]
  by (simp add: one_line_def index_def NewStack_def)

text \<open>
  Claim C1 as the specification words it gives \<open>[1, 3, 4, 2]\<close> for the stack \<open>[1, 2, 3, 4]\<close>.
  The cycle on the script \<^verbatim>\<open>@\<close> with this stack does not end there.
\<close>

theorem C1_counterexample:
  "stack_of (run ''@'' [Finite 1, Finite 2, Finite 3, Finite 4] False [quiet]) \<noteq>
     Some [Finite 1, Finite 3, Finite 4, Finite 2]"
  by (simp add: NewCodeBox_one_line run_eval Exe_SwapThree StackSwapThree_def SwapThree_def)

subsection \<open>C2: opening and closing a stack, in both modes\<close>

text \<open>
  Claim C2, as the code has it. A freshly loaded \<^verbatim>\<open>2[]\<close> with the stack
  \<open>[1, 2, 3, 4, 5]\<close> pushes 2, and \<^verbatim>\<open>[\<close> moves the top two cells to a new current stack:
  after two cycles it holds \<open>[4, 5]\<close>, and \<open>[5, 4]\<close> in compatibility mode. After the third
  cycle, \<^verbatim>\<open>]\<close>, the current stack is \<open>[1, 2, 3, 4, 5]\<close> again in both modes: in
  compatibility mode \<open>CloseStack\<close> reverses the closed stack once more before it appends it.
  This holds for every \<open>world\<close> of the three cycles.
\<close>

theorem C2_new_close_stack:
  "stack_of (run ''2[]'' [Finite 1, Finite 2, Finite 3, Finite 4, Finite 5] c [w1, w2]) =
     Some (if c then [Finite 5, Finite 4] else [Finite 4, Finite 5]) \<and>
   stack_of (run ''2[]'' [Finite 1, Finite 2, Finite 3, Finite 4, Finite 5] c [w1, w2, w3]) =
     Some [Finite 1, Finite 2, Finite 3, Finite 4, Finite 5]"
  by (cases c) (simp_all add: NewCodeBox_one_line run_eval stack_eval)

text \<open>
  Claim C2 as the specification words it expects \<open>[1, 2, 3, 5, 4]\<close> in compatibility mode.
  The run does not end with this stack.
\<close>

theorem C2_counterexample:
  "stack_of (run ''2[]'' [Finite 1, Finite 2, Finite 3, Finite 4, Finite 5] True [quiet, quiet, quiet]) \<noteq>
     Some [Finite 1, Finite 2, Finite 3, Finite 5, Finite 4]"
  by (simp add: NewCodeBox_one_line run_eval stack_eval)

subsection \<open>C3: the jump\<close>

text \<open>
  Claim C3, as the code has it. When the byte under the pointer is \<^verbatim>\<open>.\<close>, no string is
  open, and the current stack is \<open>xs @ [x, y]\<close>, the cycle pops \<open>y\<close> first, then \<open>x\<close>, sets the
  pointer to \<open>(int(x), int(y))\<close> and then makes the move that ends every cycle: the pointer
  comes to rest one cell beyond \<open>(x, y)\<close> in the direction of the fish, as \<open>Move\<close> computes
  it.
\<close>

theorem C3_jump_then_move:
  assumes "instruction cB = Inr (CHR ''.'')" and "stringMode cB = CHR 0x00"
    and "index (stacks cB) (p cB) = Inr s" and "S s = xs @ [x, y]"
  shows "Swim w cB =
         Inr (False, Move (cB\<lparr>fX := to_int w x, fY := to_int w y,
                               stacks := (stacks cB)[nat (p cB) := s\<lparr>S := xs\<rparr>]\<rparr>))"
proof -
  have 1: "S s = (xs @ [x]) @ [y]" using assms(4) by simp
  let ?c1 = "cB\<lparr>stacks := (stacks cB)[nat (p cB) := s\<lparr>S := xs @ [x]\<rparr>]\<rparr>"
  let ?c1' = "?c1\<lparr>fY := to_int w y\<rparr>"
  have i1: "index (stacks ?c1') (p ?c1') = Inr (s\<lparr>S := xs @ [x]\<rparr>)"
    using assms(3) by (simp add: index_update_same)
  have p1: "CodeBox_Pop cB = Inr (y, ?c1)"
    by (rule CodeBox_Pop_snoc [OF assms(3) 1])
  have p2: "CodeBox_Pop ?c1' =
      Inr (x, ?c1'\<lparr>stacks := (stacks ?c1')[nat (p ?c1') := s\<lparr>S := xs\<rparr>]\<rparr>)"
    using CodeBox_Pop_snoc [OF i1, of xs x] by simp
  have "Exe w cB (CHR ''.'') =
      Inr (False, cB\<lparr>fX := to_int w x, fY := to_int w y,
                       stacks := (stacks cB)[nat (p cB) := s\<lparr>S := xs\<rparr>]\<rparr>)"
    unfolding Exe_jump using p1 p2 by simp
  then show ?thesis using assms(1,2) by (simp add: Swim_def)
qed

text \<open>
  Claim C3, at the script \<^verbatim>\<open>.\<close> followed by three spaces, with the stack \<open>[2, 0]\<close>: the
  fish swims to the right, and the pointer rests at \<open>(3, 0)\<close>.
\<close>

theorem C3_jump_then_move_witness:
  "Swim quiet (one_line ''.   '' [Finite 2, Finite 0]) = Inr (False, (one_line ''.   '' [])\<lparr>fX := 3\<rparr>)"
  using C3_jump_then_move [of "one_line ''.   '' [Finite 2, Finite 0]"
      "NewStack [Finite 2, Finite 0]" "[]" "Finite 2" "Finite 0" quiet]
  by (simp add: one_line_def instruction_def index_def NewStack_def to_int_small Move_def wrap64_def)

text \<open>
  Claim C3 as the specification words it leaves the pointer at the popped coordinates,
  \<open>(2, 0)\<close> here. After the cycle the pointer is at \<open>(3, 0)\<close>, in a grid of width 4 and
  height 1.
\<close>

theorem C3_counterexample:
  "frame_of (run ''.   '' [Finite 2, Finite 0] False [quiet]) = Some (3, 0, 4, 1) \<and>
   frame_of (run ''.   '' [Finite 2, Finite 0] False [quiet]) \<noteq> Some (2, 0, 4, 1)"
  by (simp add: NewCodeBox_one_line run_eval Exe_jump)

subsection \<open>C4: the pointer and the grid\<close>

text \<open>
  Claim C4, as the code has it. The state that \<open>NewCodeBox\<close> returns has its pointer inside
  a rectangular grid whenever the grid has a positive width (and the script is short enough
  for its length to be an \<^verbatim>\<open>int\<close>). A cycle that starts with the pointer inside a
  rectangular grid and returns a state ends with the pointer inside the grid, which keeps its
  shape, provided that, if the cycle hands \<^verbatim>\<open>.\<close> to \<open>Exe\<close>, the popped coordinates are a
  cell of the grid: \<open>Move\<close> wraps around, also when \<^verbatim>\<open>!\<close> and \<^verbatim>\<open>?\<close> call it. The jump
  \<^verbatim>\<open>.\<close> itself takes the coordinates from the stack as they are: after every cycle that
  hands \<^verbatim>\<open>.\<close> to \<open>Exe\<close> the pointer is where \<open>Move\<close> takes it from the popped
  coordinates, inside the grid or not.
\<close>

theorem C4_pointer_stays_inside:
  "(NewCodeBox script stack c = Inr cB0 \<and> 0 < width cB0 \<and> int (length script) + 1 < 2 ^ 63 \<longrightarrow>
      in_box cB0 \<and> rectangular cB0) \<and>
   (in_box cB \<and> rectangular cB \<and> Swim w cB = Inr (h, cB') \<and>
    (dispatches cB (CHR ''.'') \<longrightarrow> target_inside w cB) \<longrightarrow>
      in_box cB' \<and> rectangular cB') \<and>
   (rectangular cB \<and> dispatches cB (CHR ''.'') \<and> Swim w cB = Inr (h, cB') \<longrightarrow>
      rectangular cB' \<and>
      (\<exists>x y. jump_target w cB = Some (x, y) \<and>
             fX cB' = fX (Move (cB\<lparr>fX := x, fY := y\<rparr>)) \<and>
             fY cB' = fY (Move (cB\<lparr>fX := x, fY := y\<rparr>))))"
proof (intro conjI impI)
  assume a: "NewCodeBox script stack c = Inr cB0 \<and> 0 < width cB0 \<and> int (length script) + 1 < 2 ^ 63"
  then show "in_box cB0" using NewCodeBox_instruction(1) by blast
  from a show "rectangular cB0" using NewCodeBox_rectangular(1) by blast
next
  assume a: "in_box cB \<and> rectangular cB \<and> Swim w cB = Inr (h, cB') \<and>
    (dispatches cB (CHR ''.'') \<longrightarrow> target_inside w cB)"
  have "inside cB'"
  proof (cases "dispatches cB (CHR ''.'')")
    case False
    with a have "kept (Swim w cB)" by (intro Swim_kept) (simp_all add: inside_def)
    with a show ?thesis by (simp add: kept_def)
  next
    case True
    moreover from a have "Swim w cB = Inr (h, cB')" by simp
    ultimately obtain s xs x y where t: "jump_target w cB = Some (to_int w x, to_int w y)"
      and c: "cB' = Move (cB\<lparr>fX := to_int w x, fY := to_int w y,
                          stacks := (stacks cB)[nat (p cB) := s\<lparr>S := xs\<rparr>]\<rparr>)"
      by (rule Swim_jump)
    from a True have "target_inside w cB" by simp
    with t a have "inside (cB\<lparr>fX := to_int w x, fY := to_int w y,
                          stacks := (stacks cB)[nat (p cB) := s\<lparr>S := xs\<rparr>]\<rparr>)"
      by (auto simp: target_inside_def inside_def in_box_def rectangular_def)
    then show ?thesis unfolding c by (rule inside_Move)
  qed
  then show "in_box cB'" and "rectangular cB'" by (simp_all add: inside_def)
next
  assume a: "rectangular cB \<and> dispatches cB (CHR ''.'') \<and> Swim w cB = Inr (h, cB')"
  then have "dispatches cB (CHR ''.'')" and "Swim w cB = Inr (h, cB')" by simp_all
  then obtain s xs x y where t: "jump_target w cB = Some (to_int w x, to_int w y)"
    and c: "cB' = Move (cB\<lparr>fX := to_int w x, fY := to_int w y,
                        stacks := (stacks cB)[nat (p cB) := s\<lparr>S := xs\<rparr>]\<rparr>)"
    by (rule Swim_jump)
  from a have "rectangular (cB\<lparr>fX := to_int w x, fY := to_int w y,
                        stacks := (stacks cB)[nat (p cB) := s\<lparr>S := xs\<rparr>]\<rparr>)"
    by (auto simp: rectangular_def)
  then show "rectangular cB'" unfolding c by simp
  show "\<exists>x y. jump_target w cB = Some (x, y) \<and>
             fX cB' = fX (Move (cB\<lparr>fX := x, fY := y\<rparr>)) \<and>
             fY cB' = fY (Move (cB\<lparr>fX := x, fY := y\<rparr>))"
    using t unfolding c by (simp add: Move_pointer)
qed

text \<open>
  Claim C4, at three states. On the script \<^verbatim>\<open>!\<close> the grid has one cell, both moves of
  the cycle wrap around, and the pointer is where it was. On \<^verbatim>\<open>.\<close> followed by three
  spaces, with the stack \<open>[2, 0]\<close>, the jump goes to a cell of the grid and the pointer rests
  at \<open>(3, 0)\<close>, inside. On the script \<^verbatim>\<open>.\<close> with the stack \<open>[9, 5]\<close> the popped
  coordinates are \<open>(9, 5)\<close>; the move wraps the column, and the pointer rests at \<open>(0, 5)\<close>,
  outside the grid of height 1.
\<close>

theorem C4_pointer_stays_inside_witness:
  "NewCodeBox ''!'' [] False = Inr (one_line ''!'' []) \<and> 0 < width (one_line ''!'' []) \<and>
   in_box (one_line ''!'' []) \<and> rectangular (one_line ''!'' []) \<and>
   \<not> dispatches (one_line ''!'' []) (CHR ''.'') \<and>
   Swim quiet (one_line ''!'' []) = Inr (False, one_line ''!'' []) \<and>
   dispatches (one_line ''.   '' [Finite 2, Finite 0]) (CHR ''.'') \<and>
   target_inside quiet (one_line ''.   '' [Finite 2, Finite 0]) \<and>
   Swim quiet (one_line ''.   '' [Finite 2, Finite 0]) = Inr (False, (one_line ''.   '' [])\<lparr>fX := 3\<rparr>) \<and>
   in_box ((one_line ''.   '' [])\<lparr>fX := 3\<rparr>) \<and>
   dispatches (one_line ''.'' [Finite 9, Finite 5]) (CHR ''.'') \<and>
   jump_target quiet (one_line ''.'' [Finite 9, Finite 5]) = Some (9, 5) \<and>
   Swim quiet (one_line ''.'' [Finite 9, Finite 5]) = Inr (False, (one_line ''.'' [])\<lparr>fY := 5\<rparr>) \<and>
   \<not> in_box ((one_line ''.'' [])\<lparr>fY := 5\<rparr>)"
  using C4_pointer_stays_inside [of "''!''" "[]" False "one_line ''!'' []" "one_line ''!'' []"
      quiet False "one_line ''!'' []"]
    C4_pointer_stays_inside [of "''!''" "[]" False "one_line ''!'' []"
      "one_line ''.   '' [Finite 2, Finite 0]" quiet False "(one_line ''.   '' [])\<lparr>fX := 3\<rparr>"]
    C4_pointer_stays_inside [of "''!''" "[]" False "one_line ''!'' []"
      "one_line ''.'' [Finite 9, Finite 5]" quiet False "(one_line ''.'' [])\<lparr>fY := 5\<rparr>"]
  by (simp add: NewCodeBox_one_line dispatches_def Swim_def Exe_stack_ops Exe_jump instruction_def
        index_def one_line_def Move_def wrap64_def jump_target_def target_inside_def NewStack_def
        to_int_small CodeBox_Pop_def Pop_def in_box_def rectangular_def in_int64_def)

text \<open>
  Claim C4 as the specification words it holds in every reachable state. The script
  \<^verbatim>\<open>95.\<close> reaches, after three cycles that each return false, a state with the pointer at
  \<open>(0, 5)\<close> in a grid of width 3 and height 1.
\<close>

theorem C4_counterexample:
  "frame_of (run ''95.'' [] False [quiet, quiet, quiet]) = Some (0, 5, 3, 1) \<and> \<not> (5 :: int) < 1"
  by (simp add: NewCodeBox_one_line run_eval Exe_jump Exe_stack_ops)

subsection \<open>C5: which scripts are loaded\<close>

text \<open>
  Claim C5, as the code has it. \<open>NewCodeBox\<close> panics for the scripts that, once the
  carriage returns are removed, are empty or a single line feed. It does not reject white
  space as such: every script with a byte other than carriage return and line feed (a single
  space, for one) is loaded, with the pointer inside the grid, on a byte that the first cycle
  can read. This holds in particular for every script with a byte that is not white space.
\<close>

theorem C5_load:
  "(filter (\<lambda>ch. ch \<noteq> CHR 0x0D) script \<in> {[], [CHR 0x0A]} \<longrightarrow>
      NewCodeBox script stack c = Inl EmptyProgram) \<and>
   ((\<exists>ch \<in> set script. ch \<noteq> CHR 0x0D \<and> ch \<noteq> CHR 0x0A) \<longrightarrow>
      (\<exists>cB r. NewCodeBox script stack c = Inr cB \<and> in_box cB \<and> instruction cB = Inr r)) \<and>
   ((\<exists>ch \<in> set script. \<not> is_space ch) \<longrightarrow>
      (\<exists>cB r. NewCodeBox script stack c = Inr cB \<and> in_box cB \<and> instruction cB = Inr r))"
proof (intro conjI impI)
  assume "filter (\<lambda>ch. ch \<noteq> CHR 0x0D) script \<in> {[], [CHR 0x0A]}"
  then show "NewCodeBox script stack c = Inl EmptyProgram"
    by (simp add: NewCodeBox_cases)
next
  assume "\<exists>ch \<in> set script. ch \<noteq> CHR 0x0D \<and> ch \<noteq> CHR 0x0A"
  then show "\<exists>cB r. NewCodeBox script stack c = Inr cB \<and> in_box cB \<and> instruction cB = Inr r"
    using NewCodeBox_starts by blast
next
  assume "\<exists>ch \<in> set script. \<not> is_space ch"
  then obtain ch where "ch \<in> set script" and "ch \<noteq> CHR 0x0D" and "ch \<noteq> CHR 0x0A"
    by (auto simp: is_space_def)
  then show "\<exists>cB r. NewCodeBox script stack c = Inr cB \<and> in_box cB \<and> instruction cB = Inr r"
    by (rule NewCodeBox_starts)
qed

text \<open>
  Claim C5, at three scripts: a carriage return with a line feed is rejected, a single space
  and the script \<^verbatim>\<open>a\<close> are loaded and can start.
\<close>

theorem C5_load_witness:
  "NewCodeBox [CHR 0x0D, CHR 0x0A] [] False = Inl EmptyProgram \<and>
   (\<exists>cB r. NewCodeBox '' '' [] False = Inr cB \<and> in_box cB \<and> instruction cB = Inr r) \<and>
   (\<exists>cB r. NewCodeBox ''a'' [] False = Inr cB \<and> in_box cB \<and> instruction cB = Inr r)"
  using C5_load [of "[CHR 0x0D, CHR 0x0A]" "[]" False] C5_load [of "'' ''" "[]" False]
    C5_load [of "''a''" "[]" False]
  by (simp add: is_space_def)

text \<open>
  Claim C5 as the specification words it rejects every script of white space only. The
  script of one space is loaded.
\<close>

theorem C5_counterexample:
  "list_all is_space '' '' \<and> NewCodeBox '' '' [] False = Inr (one_line '' '' [])"
  by (simp add: is_space_def NewCodeBox_one_line one_line_def)

subsection \<open>C6: popping an empty stack\<close>

text \<open>
  Claim C6. \<open>Pop\<close> on a stack without cells is the fault \<open>EmptyStack\<close>. When the current
  stack has no cells, no string is open and the byte under the pointer is an instruction that
  pops first (\<^verbatim>\<open>o n + - * , % = ) ( ? . ~ [ g p\<close>, or \<^verbatim>\<open>&\<close> with an empty register),
  the cycle ends in this fault, and so does every run that starts with this cycle, whatever
  cycles would follow: nothing is executed after the fault.
\<close>

theorem C6_pop_empty_faults:
  assumes "instruction cB = Inr r" and "stringMode cB = CHR 0x00"
    and "pops_first r \<or> (r = CHR ''&'' \<and> \<not> filledRegister s)"
    and "index (stacks cB) (p cB) = Inr s" and "S s = []"
  shows "Pop s = Inl EmptyStack \<and> Swim w cB = Inl EmptyStack \<and> swims (w # ws) cB = Inl EmptyStack"
proof -
  have pop: "Pop s = Inl EmptyStack" using assms(5) by (rule Pop_empty)
  have cpop: "CodeBox_Pop cB = Inl EmptyStack"
    using assms(4,5) by (rule CodeBox_Pop_empty)
  have "Exe w cB r = Inl EmptyStack"
  proof (cases "pops_first r")
    case True
    then show ?thesis using cpop by (rule Exe_pops_first)
  next
    case False
    with assms(3) have r: "r = CHR ''&''" and nf: "\<not> filledRegister s" by auto
    have "Register s = Inl EmptyStack" using nf pop by (simp add: Register_def)
    then show ?thesis using assms(4)
      by (simp add: r Exe_Register CodeBox_Register_def on_current_def)
  qed
  then have "Swim w cB = Inl EmptyStack" using assms(1,2) by (simp add: Swim_def)
  then show ?thesis using pop by simp
qed

text \<open>
  Claim C6, at the script \<^verbatim>\<open>~\<close> with an empty stack.
\<close>

theorem C6_pop_empty_faults_witness:
  "Pop (NewStack []) = Inl EmptyStack \<and> Swim quiet (one_line ''~'' []) = Inl EmptyStack \<and>
   swims [quiet, quiet] (one_line ''~'' []) = Inl EmptyStack"
  using C6_pop_empty_faults [of "one_line ''~'' []" "CHR ''~''" "NewStack []" quiet "[quiet]"]
  by (simp add: one_line_def instruction_def index_def pops_first_def NewStack_def)

subsection \<open>C7: the operands of the binary instructions\<close>

text \<open>
  Claim C7, as the code has it. On a current stack \<open>xs @ [b, a]\<close> (so \<open>a\<close> is popped
  first), each of \<^verbatim>\<open>+ - * , = ) (\<close> leaves \<open>xs @ [b OP a]\<close>, with 1 or 0 for the
  comparisons. (For \<^verbatim>\<open>+\<close>, \<^verbatim>\<open>*\<close> and \<^verbatim>\<open>=\<close> the source writes \<open>a OP b\<close>, which is
  the same cell.) The instruction \<^verbatim>\<open>%\<close> pops in the same order and converts both operands
  to 64-bit integers. When \<open>int64(a)\<close> is zero, the integer division panics and nothing is
  pushed; otherwise the instruction leaves the remainder of \<open>int64(b)\<close> by \<open>int64(a)\<close>, with
  the sign of the dividend. The conversion discards the fraction of a finite operand whose
  integer part fits 64 bits; for any other operand Go leaves its result to the
  implementation.
\<close>

theorem C7_binary_operand_order:
  assumes "index (stacks cB) (p cB) = Inr s" and "S s = xs @ [b, a]"
  shows "Exe w cB (CHR ''+'') = Inr (False, cB\<lparr>stacks := (stacks cB)[nat (p cB) := s\<lparr>S := xs @ [fadd b a]\<rparr>]\<rparr>) \<and>
     Exe w cB (CHR ''-'') = Inr (False, cB\<lparr>stacks := (stacks cB)[nat (p cB) := s\<lparr>S := xs @ [fsub b a]\<rparr>]\<rparr>) \<and>
     Exe w cB (CHR ''*'') = Inr (False, cB\<lparr>stacks := (stacks cB)[nat (p cB) := s\<lparr>S := xs @ [fmul b a]\<rparr>]\<rparr>) \<and>
     Exe w cB (CHR '','') = Inr (False, cB\<lparr>stacks := (stacks cB)[nat (p cB) := s\<lparr>S := xs @ [fdiv b a]\<rparr>]\<rparr>) \<and>
     Exe w cB (CHR ''='') = Inr (False, cB\<lparr>stacks := (stacks cB)[nat (p cB) :=
               s\<lparr>S := xs @ [if feq b a then Finite 1 else Finite 0]\<rparr>]\<rparr>) \<and>
     Exe w cB (CHR '')'') = Inr (False, cB\<lparr>stacks := (stacks cB)[nat (p cB) :=
               s\<lparr>S := xs @ [if fgt b a then Finite 1 else Finite 0]\<rparr>]\<rparr>) \<and>
     Exe w cB (CHR ''('') = Inr (False, cB\<lparr>stacks := (stacks cB)[nat (p cB) :=
               s\<lparr>S := xs @ [if flt b a then Finite 1 else Finite 0]\<rparr>]\<rparr>) \<and>
     Exe w cB (CHR ''%'') =
       (if to_int w a = 0 then Inl DivideByZero
        else Inr (False, cB\<lparr>stacks := (stacks cB)[nat (p cB) :=
               s\<lparr>S := xs @ [float64_of_int (to_int w b smod to_int w a)]\<rparr>]\<rparr>)) \<and>
     (is_finite a \<and> in_int64 (trunc (fin a)) \<longrightarrow> to_int w a = trunc (fin a)) \<and>
     (is_finite b \<and> in_int64 (trunc (fin b)) \<longrightarrow> to_int w b = trunc (fin b))"
  by (simp add: Exe_binary pop_pop [OF assms] push_after_pops [OF assms(1)]
        fadd_commute [of a b] fmul_commute [of a b] feq_commute [of a b] to_int_def)

text \<open>
  Claim C7, at stacks of two cells for each of the eight instructions: \<open>[5, 2]\<close> gives
  \<open>[7]\<close>, \<open>[3]\<close> and \<open>[10]\<close> with \<^verbatim>\<open>+\<close>, \<^verbatim>\<open>-\<close> and \<^verbatim>\<open>*\<close>; \<open>[8, 2]\<close> gives
  \<open>[4]\<close> with \<^verbatim>\<open>,\<close>; \<open>[5, 2]\<close> gives 0 with \<^verbatim>\<open>=\<close>, 1 with \<^verbatim>\<open>)\<close> and 0 with
  \<^verbatim>\<open>(\<close>, and \<open>[2, 5]\<close> the opposite for the two order comparisons; \<open>[5, 5]\<close> gives 1
  with \<^verbatim>\<open>=\<close>. With \<^verbatim>\<open>%\<close>, \<open>[7, 3]\<close> gives \<open>[1]\<close>, \<open>[-7, 3]\<close> gives \<open>[-1]\<close>, and
  \<open>[7.5, 2.5]\<close> gives \<open>[1]\<close>, the remainder of 7 by 2.
\<close>

theorem C7_binary_operand_order_witness:
  "Exe quiet (one_line ''+'' [Finite 5, Finite 2]) (CHR ''+'') = Inr (False, one_line ''+'' [Finite 7]) \<and>
   Exe quiet (one_line ''-'' [Finite 5, Finite 2]) (CHR ''-'') = Inr (False, one_line ''-'' [Finite 3]) \<and>
   Exe quiet (one_line ''*'' [Finite 5, Finite 2]) (CHR ''*'') = Inr (False, one_line ''*'' [Finite 10]) \<and>
   Exe quiet (one_line '','' [Finite 8, Finite 2]) (CHR '','') = Inr (False, one_line '','' [Finite 4]) \<and>
   Exe quiet (one_line ''='' [Finite 5, Finite 2]) (CHR ''='') = Inr (False, one_line ''='' [Finite 0]) \<and>
   Exe quiet (one_line ''='' [Finite 5, Finite 5]) (CHR ''='') = Inr (False, one_line ''='' [Finite 1]) \<and>
   Exe quiet (one_line '')'' [Finite 5, Finite 2]) (CHR '')'') = Inr (False, one_line '')'' [Finite 1]) \<and>
   Exe quiet (one_line '')'' [Finite 2, Finite 5]) (CHR '')'') = Inr (False, one_line '')'' [Finite 0]) \<and>
   Exe quiet (one_line ''('' [Finite 5, Finite 2]) (CHR ''('') = Inr (False, one_line ''('' [Finite 0]) \<and>
   Exe quiet (one_line ''('' [Finite 2, Finite 5]) (CHR ''('') = Inr (False, one_line ''('' [Finite 1]) \<and>
   Exe quiet (one_line ''%'' [Finite 7, Finite 3]) (CHR ''%'') = Inr (False, one_line ''%'' [Finite 1]) \<and>
   Exe quiet (one_line ''%'' [Finite (- 7), Finite 3]) (CHR ''%'') = Inr (False, one_line ''%'' [Finite (- 1)]) \<and>
   Exe quiet (one_line ''%'' [Finite (15 / 2), Finite (5 / 2)]) (CHR ''%'') = Inr (False, one_line ''%'' [Finite 1])"
  using C7_binary_operand_order [of "one_line ''+'' [Finite 5, Finite 2]" "NewStack [Finite 5, Finite 2]"
      "[]" "Finite 5" "Finite 2" quiet]
    C7_binary_operand_order [of "one_line ''-'' [Finite 5, Finite 2]" "NewStack [Finite 5, Finite 2]"
      "[]" "Finite 5" "Finite 2" quiet]
    C7_binary_operand_order [of "one_line ''*'' [Finite 5, Finite 2]" "NewStack [Finite 5, Finite 2]"
      "[]" "Finite 5" "Finite 2" quiet]
    C7_binary_operand_order [of "one_line '','' [Finite 8, Finite 2]" "NewStack [Finite 8, Finite 2]"
      "[]" "Finite 8" "Finite 2" quiet]
    C7_binary_operand_order [of "one_line ''='' [Finite 5, Finite 2]" "NewStack [Finite 5, Finite 2]"
      "[]" "Finite 5" "Finite 2" quiet]
    C7_binary_operand_order [of "one_line ''='' [Finite 5, Finite 5]" "NewStack [Finite 5, Finite 5]"
      "[]" "Finite 5" "Finite 5" quiet]
    C7_binary_operand_order [of "one_line '')'' [Finite 5, Finite 2]" "NewStack [Finite 5, Finite 2]"
      "[]" "Finite 5" "Finite 2" quiet]
    C7_binary_operand_order [of "one_line '')'' [Finite 2, Finite 5]" "NewStack [Finite 2, Finite 5]"
      "[]" "Finite 2" "Finite 5" quiet]
    C7_binary_operand_order [of "one_line ''('' [Finite 5, Finite 2]" "NewStack [Finite 5, Finite 2]"
      "[]" "Finite 5" "Finite 2" quiet]
    C7_binary_operand_order [of "one_line ''('' [Finite 2, Finite 5]" "NewStack [Finite 2, Finite 5]"
      "[]" "Finite 2" "Finite 5" quiet]
    C7_binary_operand_order [of "one_line ''%'' [Finite 7, Finite 3]" "NewStack [Finite 7, Finite 3]"
      "[]" "Finite 7" "Finite 3" quiet]
    C7_binary_operand_order [of "one_line ''%'' [Finite (- 7), Finite 3]" "NewStack [Finite (- 7), Finite 3]"
      "[]" "Finite (- 7)" "Finite 3" quiet]
    C7_binary_operand_order [of "one_line ''%'' [Finite (15 / 2), Finite (5 / 2)]"
      "NewStack [Finite (15 / 2), Finite (5 / 2)]" "[]" "Finite (15 / 2)" "Finite (5 / 2)" quiet]
  by (simp add: one_line_def index_def NewStack_def small_values binary_values)

text \<open>
  Claim C7 as the specification words it has every binary instruction push a result on
  every stack of two cells. On \<open>[5, 0]\<close> the cycle of \<^verbatim>\<open>%\<close> ends in the panic of the
  integer division, and the process exits.
\<close>

theorem C7_counterexample:
  "run ''%'' [Finite 5, Finite 0] False [quiet] = Inl DivideByZero"
  by (simp add: NewCodeBox_one_line run_eval Exe_binary)

subsection \<open>C8: string mode\<close>

text \<open>
  Claim C8. While a string is open, a cycle on a byte \<open>r\<close> other than the open delimiter
  pushes the number of \<open>r\<close> on the current stack, moves, and returns false without calling
  \<open>Exe\<close>; the string stays open. This includes \<^verbatim>\<open>;\<close> and the other quote. A cycle on
  the open delimiter (one of the two quotes) closes the string.
\<close>

theorem C8_string_mode_pushes:
  assumes "instruction cB = Inr r" and "stringMode cB \<noteq> CHR 0x00"
    and "index (stacks cB) (p cB) = Inr s"
  shows "(r \<noteq> stringMode cB \<longrightarrow>
            Swim w cB = Inr (False, Move (cB\<lparr>stacks := (stacks cB)[nat (p cB) :=
                                 s\<lparr>S := S s @ [float64_of_byte r]\<rparr>]\<rparr>)) \<and>
            stringMode (Move (cB\<lparr>stacks := (stacks cB)[nat (p cB) :=
                                 s\<lparr>S := S s @ [float64_of_byte r]\<rparr>]\<rparr>)) = stringMode cB) \<and>
         (r = stringMode cB \<and> (r = CHR 0x22 \<or> r = CHR 0x27) \<longrightarrow>
            Swim w cB = Inr (False, Move (cB\<lparr>stringMode := CHR 0x00\<rparr>)))"
proof (intro conjI impI)
  assume "r \<noteq> stringMode cB"
  then show "Swim w cB = Inr (False, Move (cB\<lparr>stacks := (stacks cB)[nat (p cB) :=
                                 s\<lparr>S := S s @ [float64_of_byte r]\<rparr>]\<rparr>))"
    using assms by (simp add: Swim_def CodeBox_Push_Inr)
next
  show "stringMode (Move (cB\<lparr>stacks := (stacks cB)[nat (p cB) :=
                                 s\<lparr>S := S s @ [float64_of_byte r]\<rparr>]\<rparr>)) = stringMode cB"
    by (simp add: Move_def Let_def split: Direction.split)
next
  assume a: "r = stringMode cB \<and> (r = CHR 0x22 \<or> r = CHR 0x27)"
  then have q: "r = CHR 0x22 \<or> r = CHR 0x27" and m: "stringMode cB = r" by auto
  have "Exe w cB r = Inr (False, cB\<lparr>stringMode := CHR 0x00\<rparr>)"
    using Exe_quote [OF q, of w cB] assms(2) m by simp
  then show "Swim w cB = Inr (False, Move (cB\<lparr>stringMode := CHR 0x00\<rparr>))"
    using assms(1) m by (simp add: Swim_def)
qed

text \<open>
  Claim C8, at three states with an open string and the pointer on the second byte of a
  script of two bytes: \<^verbatim>\<open>;\<close> is pushed as 59, the double quote inside a string opened by
  a single quote is pushed as 34, and the double quote closes the string that it opened.
\<close>

theorem C8_string_mode_pushes_witness:
  "Swim quiet ((one_line [CHR 0x22, CHR '';''] [])\<lparr>fX := 1, stringMode := CHR 0x22\<rparr>) =
     Inr (False, (one_line [CHR 0x22, CHR '';''] [Finite 59])\<lparr>stringMode := CHR 0x22\<rparr>) \<and>
   Swim quiet ((one_line [CHR 0x27, CHR 0x22] [])\<lparr>fX := 1, stringMode := CHR 0x27\<rparr>) =
     Inr (False, (one_line [CHR 0x27, CHR 0x22] [Finite 34])\<lparr>stringMode := CHR 0x27\<rparr>) \<and>
   Swim quiet ((one_line [CHR 0x22, CHR 0x22] [])\<lparr>fX := 1, stringMode := CHR 0x22\<rparr>) =
     Inr (False, one_line [CHR 0x22, CHR 0x22] [])"
  using C8_string_mode_pushes [of "(one_line [CHR 0x22, CHR '';''] [])\<lparr>fX := 1, stringMode := CHR 0x22\<rparr>"
      "CHR '';''" "NewStack []" quiet]
    C8_string_mode_pushes [of "(one_line [CHR 0x27, CHR 0x22] [])\<lparr>fX := 1, stringMode := CHR 0x27\<rparr>"
      "CHR 0x22" "NewStack []" quiet]
    C8_string_mode_pushes [of "(one_line [CHR 0x22, CHR 0x22] [])\<lparr>fX := 1, stringMode := CHR 0x22\<rparr>"
      "CHR 0x22" "NewStack []" quiet]
  by (simp add: one_line_def instruction_def index_def NewStack_def float64_of_byte_exact Move_def wrap64_def)

subsection \<open>C9: the register\<close>

text \<open>
  Claim C9. When the current stack has a cell and its register is empty, two executions of
  \<^verbatim>\<open>&\<close> in a row give back the state they started from, but for the field
  \<open>register\<close>, which keeps the last top of the stack behind a flag \<open>filledRegister\<close> that is
  false again: the stack has its old contents and the register is empty.
\<close>

theorem C9_register_round_trip:
  assumes "index (stacks cB) (p cB) = Inr s" and "S s \<noteq> []" and "\<not> filledRegister s"
  shows "andThen (Exe w cB (CHR ''&'')) (\<lambda>(halt, cB'). Exe w' cB' (CHR ''&'')) =
         Inr (False, cB\<lparr>stacks := (stacks cB)[nat (p cB) := s\<lparr>register := last (S s)\<rparr>]\<rparr>)"
proof -
  from assms(2) obtain xs x where xs: "S s = xs @ [x]" by (metis rev_exhaust)
  let ?s1 = "s\<lparr>S := xs, register := x, filledRegister := True\<rparr>"
  let ?c1 = "cB\<lparr>stacks := (stacks cB)[nat (p cB) := ?s1]\<rparr>"
  have r1: "Register s = Inr ?s1"
    using assms(3) xs by (simp add: Register_def Pop_snoc)
  have "s\<lparr>register := x, S := xs @ [x], filledRegister := False\<rparr> = s\<lparr>register := x\<rparr>"
    using xs assms(3) by (intro Stack.equality) simp_all
  then have r2: "Register ?s1 = Inr (s\<lparr>register := x\<rparr>)"
    by (simp add: Register_def Push_def)
  have e1: "Exe w cB (CHR ''&'') = Inr (False, ?c1)"
    using assms(1) r1 by (simp add: Exe_Register CodeBox_Register_def on_current_def)
  have i1: "index (stacks ?c1) (p ?c1) = Inr ?s1"
    using assms(1) by (simp add: index_update_same)
  have e2: "Exe w' ?c1 (CHR ''&'') = Inr (False, cB\<lparr>stacks := (stacks cB)[nat (p cB) := s\<lparr>register := x\<rparr>]\<rparr>)"
    using i1 r2 by (simp add: Exe_Register CodeBox_Register_def on_current_def)
  show ?thesis using e1 e2 xs by simp
qed

text \<open>
  Claim C9, at the stack \<open>[5]\<close>.
\<close>

theorem C9_register_round_trip_witness:
  "andThen (Exe quiet (one_line ''&&'' [Finite 5]) (CHR ''&'')) (\<lambda>(halt, cB'). Exe quiet cB' (CHR ''&'')) =
     Inr (False, (one_line ''&&'' [Finite 5])\<lparr>stacks := [(NewStack [Finite 5])\<lparr>register := Finite 5\<rparr>]\<rparr>)"
  using C9_register_round_trip [of "one_line ''&&'' [Finite 5]" "NewStack [Finite 5]" quiet quiet]
  by (simp add: one_line_def index_def NewStack_def)

subsection \<open>C10: opening a stack in a slot that exists\<close>

text \<open>
  Claim C10 fails in the second branch of \<open>CodeBox_NewStack\<close>. The script
  \<^verbatim>\<open>2[]2[]\<close> with the stack \<open>[1, 2, 3]\<close> opens and closes a stack twice. The first pair
  gives back \<open>[1, 2, 3]\<close> (lemma \<open>fresh_round_trip\<close> shows this for every stack). The second
  \<^verbatim>\<open>[\<close> finds the slot of the first one, fills it with the top two cells and leaves them
  on the parent as well, so the second \<^verbatim>\<open>]\<close> appends them a second time: the run ends with
  \<open>[1, 2, 3, 2, 3]\<close>, in both modes.
\<close>

theorem C10_reused_slot_duplicates:
  "stack_of (run ''2[]2[]'' [Finite 1, Finite 2, Finite 3] c [w1, w2, w3]) =
     Some [Finite 1, Finite 2, Finite 3] \<and>
   stack_of (run ''2[]2[]'' [Finite 1, Finite 2, Finite 3] c [w1, w2, w3, w4, w5, w6]) =
     Some [Finite 1, Finite 2, Finite 3, Finite 2, Finite 3]"
  by (cases c) (simp_all add: NewCodeBox_one_line run_eval stack_eval)

end
